theory Spec2Isabelle
  imports Complex_Main "HOL-Library.Sublist"
begin

section \<open>JavaScript values used by the date helpers\<close>

text \<open>
  A JavaScript number is an IEEE double. The model keeps the three kinds of non-finite
  values apart and represents a finite double by the rational number it denotes (the sign
  of zero is not observable in any function below).
\<close>

datatype number = NaN | PosInfinity | NegInfinity | Finite rat

text \<open>
  A Date object is its internal time value (the \<open>[[DateValue]]\<close> slot): \<open>NaN\<close> for an
  invalid Date, otherwise an integral number of milliseconds since the epoch. Date objects
  are never mutated by the library, so a Date is modelled by the value it holds.
\<close>

datatype date = Date (DateValue: number)

text \<open>
  The values that can reach \<open>toDate\<close> and \<open>isDate\<close>. The declared parameter type of
  \<open>toDate\<close> is \<open>Date | number | string | null | undefined\<close>; \<open>isDate\<close> takes
  \<open>unknown\<close>, and untyped callers can pass anything, so booleans and objects that are
  not Date instances are values too.

  \<open>FakeDate\<close> is an object that has \<open>Date.prototype\<close> on its prototype chain without
  being a Date object: \<^verbatim>\<open>Object.create(Date.prototype)\<close>, or
  \<^verbatim>\<open>new Proxy(new Date(0), {})\<close>. It passes \<open>instanceof Date\<close>, the type checker
  accepts it as a \<open>Date\<close>, and it has no time value: the method \<open>getTime\<close> throws a
  TypeError on it. Objects that run code of their own during \<open>instanceof\<close> or during the
  method call (a proxy with traps, a redefined \<open>getTime\<close>) are not modelled.
\<close>

datatype val =
    Undefined
  | Null
  | DateObj date
  | Num number
  | Str string
  | Bool bool
  | PlainObject
  | FakeDate

datatype error = TypeError string

subsection \<open>Built-ins\<close>

definition Number_isNaN :: "number \<Rightarrow> bool" where
  "Number_isNaN x = (x = NaN)"

text \<open>\<open>ToIntegerOrInfinity\<close> on a finite number: truncation towards zero.\<close>

definition ToInteger :: "rat \<Rightarrow> int" where
  "ToInteger q = (if q < 0 then \<lceil>q\<rceil> else \<lfloor>q\<rfloor>)"

text \<open>
  \<open>TimeClip\<close> of ECMAScript: a non-finite time and a time beyond 8.64e15 milliseconds
  give \<open>NaN\<close>; any other time is truncated to an integer.
\<close>

definition TimeClip :: "number \<Rightarrow> number" where
  "TimeClip time =
     (case time of
        Finite q \<Rightarrow> if \<bar>q\<bar> > 8640000000000000 then NaN else Finite (of_int (ToInteger q))
      | _ \<Rightarrow> NaN)"

text \<open>
  \<open>new Date(value)\<close> for the two argument types \<open>toDate\<close> passes to it. For a number
  the time value is the clipped number. For a string it is the clipped result of
  \<open>Date.parse\<close>, which is a function of the engine: it is a parameter \<open>parse\<close> of the
  model, giving \<open>NaN\<close> for a string the engine cannot read as a date.
\<close>

definition newDateOfNumber :: "number \<Rightarrow> date" where
  "newDateOfNumber n = Date (TimeClip n)"

definition newDateOfString :: "(string \<Rightarrow> number) \<Rightarrow> string \<Rightarrow> date" where
  "newDateOfString parse s = Date (TimeClip (parse s))"

text \<open>
  \<open>value instanceof Date\<close>: whether \<open>Date.prototype\<close> is on the prototype chain of the
  value. That is so for Date objects and for the object \<open>FakeDate\<close>.
\<close>

fun instanceofDate :: "val \<Rightarrow> bool" where
  "instanceofDate (DateObj d) = True"
| "instanceofDate FakeDate = True"
| "instanceofDate _ = False"

text \<open>
  The method call \<open>value.getTime()\<close>. On a Date it reads the time value. On
  \<open>FakeDate\<close> the method is found on the prototype and throws, since the receiver has no
  time value. On any other value there is no such method and the call throws. Both
  exceptions are TypeErrors (the messages are the engine's).
\<close>

fun getTime :: "val \<Rightarrow> error + number" where
  "getTime (DateObj d) = Inr (DateValue d)"
| "getTime FakeDate = Inl (TypeError ''this is not a Date object.'')"
| "getTime _ = Inl (TypeError ''getTime is not a function'')"

subsection \<open>app/type-check.ts\<close>

text \<open>
  \<^verbatim>\<open>return value instanceof Date && !Number.isNaN(value.getTime())\<close>
  with the short circuit of \<open>&&\<close>: \<open>getTime\<close> is only called on an instance of Date.
\<close>

definition isDate :: "val \<Rightarrow> error + bool" where
  "isDate v =
     (if instanceofDate v
      then (case getTime v of
              Inl e \<Rightarrow> Inl e
            | Inr t \<Rightarrow> Inr (\<not> Number_isNaN t))
      else Inr False)"

subsection \<open>app/code.ts\<close>

text \<open>
  \<open>toDate(value, defaultValue?)\<close>, branch by branch in the order of the source. The
  result type \<open>Date | undefined\<close> is \<open>date option\<close>, with \<open>None\<close> for
  \<open>undefined\<close>; so is the optional parameter \<open>defaultValue\<close>. A thrown exception
  is \<open>Inl\<close>.

  \<open>FakeDate\<close> takes the branch \<^verbatim>\<open>if (value instanceof Date)\<close>, like a Date object.
  There \<^verbatim>\<open>value.getTime()\<close> is evaluated first and throws; nothing in \<open>toDate\<close>
  catches the exception, and the conditional around the call is never decided.
\<close>

fun toDate :: "(string \<Rightarrow> number) \<Rightarrow> val \<Rightarrow> date option \<Rightarrow> error + date option" where
  "toDate parse Undefined defaultValue = Inr defaultValue"
| "toDate parse Null defaultValue = Inr defaultValue"
| "toDate parse (DateObj d) defaultValue =
     (case getTime (DateObj d) of
        Inl e \<Rightarrow> Inl e
      | Inr t \<Rightarrow> Inr (if Number_isNaN t then defaultValue else Some d))"
| "toDate parse FakeDate defaultValue = Inl (TypeError ''this is not a Date object.'')"
| "toDate parse (Str s) defaultValue =
     (let date = newDateOfString parse s in
      case getTime (DateObj date) of
        Inl e \<Rightarrow> Inl e
      | Inr t \<Rightarrow> Inr (if Number_isNaN t then defaultValue else Some date))"
| "toDate parse (Num n) defaultValue =
     (let date = newDateOfNumber n in
      case getTime (DateObj date) of
        Inl e \<Rightarrow> Inl e
      | Inr t \<Rightarrow> Inr (if Number_isNaN t then defaultValue else Some date))"
| "toDate parse _ defaultValue = Inr defaultValue"

text \<open>
  \<open>toDateStrict\<close>: the result of \<open>toDate\<close>, or a TypeError when that result is
  \<open>undefined\<close>.
\<close>

definition toDateStrict :: "(string \<Rightarrow> number) \<Rightarrow> val \<Rightarrow> date option \<Rightarrow> error + date" where
  "toDateStrict parse v defaultValue =
     (case toDate parse v defaultValue of
        Inl e \<Rightarrow> Inl e
      | Inr date \<Rightarrow>
          (case date of
             None \<Rightarrow> Inl (TypeError ''Value cannot be converted to Date'')
           | Some d \<Rightarrow> Inr d))"

text \<open>
  A fragment of \<open>Date.parse\<close> for concrete runs: ECMAScript fixes the value of the ISO
  date-only string \<open>2023-01-01\<close> (midnight UTC); the fragment rejects every other string.
\<close>

definition sampleParse :: "string \<Rightarrow> number" where
  "sampleParse s = (if s = ''2023-01-01'' then Finite 1672531200000 else NaN)"

section \<open>Strings and regular expressions of the build scripts\<close>

text \<open>
  A JavaScript string is modelled as a \<open>string\<close> of code units below 256. The helpers
  below are the String and Array methods the build scripts call.
\<close>

definition NL :: string where
  "NL = [CHR 0x0A]"

text \<open>White space of \<open>\s\<close> and of \<open>trim()\<close>: TAB, LF, VT, FF, CR, space, NBSP.\<close>

definition isWhiteSpace :: "char \<Rightarrow> bool" where
  "isWhiteSpace c =
     (c = CHR 0x09 \<or> c = CHR 0x0A \<or> c = CHR 0x0B \<or> c = CHR 0x0C \<or> c = CHR 0x0D
      \<or> c = CHR '' '' \<or> c = CHR 0xA0)"

definition isLineTerminator :: "char \<Rightarrow> bool" where
  "isLineTerminator c = (c = CHR 0x0A \<or> c = CHR 0x0D)"

definition trim :: "string \<Rightarrow> string" where
  "trim s = rev (dropWhile isWhiteSpace (rev (dropWhile isWhiteSpace s)))"

text \<open>\<open>s.split('\n')\<close>: the empty string gives one empty line.\<close>

fun splitLines :: "string \<Rightarrow> string list" where
  "splitLines [] = [[]]"
| "splitLines (c # cs) =
     (if c = CHR 0x0A then [] # splitLines cs
      else (case splitLines cs of
              [] \<Rightarrow> [[c]]
            | l # ls \<Rightarrow> (c # l) # ls))"

text \<open>\<open>lines.join(sep)\<close>.\<close>

fun joinWith :: "string \<Rightarrow> string list \<Rightarrow> string" where
  "joinWith sep [] = []"
| "joinWith sep [x] = x"
| "joinWith sep (x # y # r) = x @ sep @ joinWith sep (y # r)"

definition startsWith :: "string \<Rightarrow> string \<Rightarrow> bool" where
  "startsWith s p = (take (length p) s = p)"

text \<open>\<open>s.includes(needle)\<close>.\<close>

fun str_includes :: "string \<Rightarrow> string \<Rightarrow> bool" where
  "str_includes [] needle = (needle = [])"
| "str_includes (c # cs) needle = (startsWith (c # cs) needle \<or> str_includes cs needle)"

text \<open>
  \<open>s.replace(pat, rep)\<close> with a string pattern: the first occurrence only (the
  replacement used by the scripts has no \<open>$\<close> pattern).
\<close>

fun replaceFirst :: "string \<Rightarrow> string \<Rightarrow> string \<Rightarrow> string" where
  "replaceFirst [] pat rep = (if pat = [] then rep else [])"
| "replaceFirst (c # cs) pat rep =
     (if startsWith (c # cs) pat then rep @ drop (length pat) (c # cs)
      else c # replaceFirst cs pat rep)"

text \<open>
  A value in a condition: \<open>null\<close> and the empty string are falsy, any other string is
  truthy; \<open>textOf\<close> reads a string known to be truthy. A value in a template literal:
  \<open>undefined\<close> prints as the word.
\<close>

definition truthy :: "string option \<Rightarrow> bool" where
  "truthy v = (case v of None \<Rightarrow> False | Some s \<Rightarrow> s \<noteq> [])"

definition textOf :: "string option \<Rightarrow> string" where
  "textOf v = (case v of None \<Rightarrow> [] | Some s \<Rightarrow> s)"

definition templ :: "string option \<Rightarrow> string" where
  "templ v = (case v of None \<Rightarrow> ''undefined'' | Some s \<Rightarrow> s)"

subsection \<open>The regular expressions\<close>

text \<open>
  The two scripts use four regular expressions. Each is an alternation of sequences of
  quantified one-character atoms and position assertions, with at most one capture group,
  made of one quantified atom. The matcher below is the backtracking matcher of ECMAScript
  on that fragment: alternatives in order, quantifiers greedy, the first match from the
  left.

  Under flag \<open>i\<close> characters are compared after \<open>toUpperCase\<close>; the model folds the
  ASCII letters, which is exact for the ASCII patterns of the scripts.
\<close>

definition toUpperCase :: "char \<Rightarrow> char" where
  "toUpperCase c =
     (case map_of (zip ''abcdefghijklmnopqrstuvwxyz'' ''ABCDEFGHIJKLMNOPQRSTUVWXYZ'') c of
        None \<Rightarrow> c
      | Some u \<Rightarrow> u)"

definition canonicalize :: "bool \<Rightarrow> char \<Rightarrow> char" where
  "canonicalize ignoreCase c = (if ignoreCase then toUpperCase c else c)"

datatype atom =
    Lit char  \<comment> \<open>a literal character\<close>
  | WhiteSpace  \<comment> \<open>\<open>\s\<close>\<close>
  | NoneOf "char list"  \<comment> \<open>a negated class \<open>[^...]\<close>\<close>

datatype quantifier = Once | Optional | ZeroOrMore | OneOrMore

text \<open>
  \<open>LineStart\<close> is \<open>^\<close> under flag \<open>m\<close>. \<open>InputEnd\<close> is \<open>$\<close> without flag
  \<open>m\<close>: the position after the last character of the text. The flag of an \<open>Item\<close>
  says whether the item is the capture group.
\<close>

datatype item = LineStart | InputEnd | Item bool quantifier atom

fun atomMatches :: "bool \<Rightarrow> atom \<Rightarrow> char \<Rightarrow> bool" where
  "atomMatches ic (Lit x) c = (canonicalize ic x = canonicalize ic c)"
| "atomMatches ic WhiteSpace c = isWhiteSpace c"
| "atomMatches ic (NoneOf xs) c = (canonicalize ic c \<notin> set (map (canonicalize ic) xs))"

text \<open>The character before the current position: none at the start of the input.\<close>

definition atLineStart :: "char option \<Rightarrow> bool" where
  "atLineStart prev = (case prev of None \<Rightarrow> True | Some p \<Rightarrow> isLineTerminator p)"

text \<open>
  A match is the number of characters consumed and the text of the capture group.
  \<open>grab\<close> adds one consumed character, to the group when the item is the group.
\<close>

definition grab :: "bool \<Rightarrow> char \<Rightarrow> nat \<times> string \<Rightarrow> nat \<times> string" where
  "grab captured c m = (Suc (fst m), if captured then c # snd m else snd m)"

definition mandatory :: "quantifier \<Rightarrow> bool" where
  "mandatory q = (q = Once \<or> q = OneOrMore)"

fun matchItems :: "bool \<Rightarrow> item list \<Rightarrow> char option \<Rightarrow> string \<Rightarrow> (nat \<times> string) option" where
  "matchItems ic [] prev s = Some (0, [])"
| "matchItems ic (LineStart # r) prev s =
     (if atLineStart prev then matchItems ic r prev s else None)"
| "matchItems ic (Item g q a # r) prev [] =
     (if mandatory q then None else matchItems ic r prev [])"
| "matchItems ic (Item g q a # r) prev (c # cs) =
     (if atomMatches ic a c then
        (case q of
           Once \<Rightarrow> map_option (grab g c) (matchItems ic r (Some c) cs)
         | Optional \<Rightarrow>
             (case matchItems ic r (Some c) cs of
                Some m \<Rightarrow> Some (grab g c m)
              | None \<Rightarrow> matchItems ic r prev (c # cs))
         | ZeroOrMore \<Rightarrow>
             (case matchItems ic (Item g ZeroOrMore a # r) (Some c) cs of
                Some m \<Rightarrow> Some (grab g c m)
              | None \<Rightarrow> matchItems ic r prev (c # cs))
         | OneOrMore \<Rightarrow>
             map_option (grab g c) (matchItems ic (Item g ZeroOrMore a # r) (Some c) cs))
      else if mandatory q then None else matchItems ic r prev (c # cs))"
| "matchItems ic (InputEnd # r) prev s =
     (if s = [] then matchItems ic r prev s else None)"

type_synonym regex = "item list list"

fun matchRegex :: "bool \<Rightarrow> regex \<Rightarrow> char option \<Rightarrow> string \<Rightarrow> (nat \<times> string) option" where
  "matchRegex ic [] prev s = None"
| "matchRegex ic (alt # alts) prev s =
     (case matchItems ic alt prev s of
        Some m \<Rightarrow> Some m
      | None \<Rightarrow> matchRegex ic alts prev s)"

text \<open>
  \<open>s.match(re)\<close> without flag \<open>g\<close>: the first position from the left where the
  expression matches; the result here is the text of group 1, \<open>None\<close> for \<open>null\<close>.
\<close>

fun searchFrom :: "bool \<Rightarrow> regex \<Rightarrow> char option \<Rightarrow> string \<Rightarrow> string option" where
  "searchFrom ic re prev [] = map_option snd (matchRegex ic re prev [])"
| "searchFrom ic re prev (c # cs) =
     (case matchRegex ic re prev (c # cs) of
        Some m \<Rightarrow> Some (snd m)
      | None \<Rightarrow> searchFrom ic re (Some c) cs)"

definition matchGroup1 :: "bool \<Rightarrow> regex \<Rightarrow> string \<Rightarrow> string option" where
  "matchGroup1 ic re s = searchFrom ic re None s"

text \<open>
  \<open>s.replace(re, '')\<close> with flag \<open>g\<close>: every match, from the left, is removed. After a
  match of \<open>k + 1\<close> characters at a position, \<open>pending\<close> counts the \<open>k\<close> characters
  still to drop before the search resumes; a position with no match (or an empty one)
  keeps its character.
\<close>

fun removeFrom :: "bool \<Rightarrow> regex \<Rightarrow> nat \<Rightarrow> char option \<Rightarrow> string \<Rightarrow> string" where
  "removeFrom ic re pending prev [] = []"
| "removeFrom ic re (Suc k) prev (c # cs) = removeFrom ic re k (Some c) cs"
| "removeFrom ic re 0 prev (c # cs) =
     (case matchRegex ic re prev (c # cs) of
        None \<Rightarrow> c # removeFrom ic re 0 (Some c) cs
      | Some m \<Rightarrow>
          (case fst m of
             0 \<Rightarrow> c # removeFrom ic re 0 (Some c) cs
           | Suc k \<Rightarrow> removeFrom ic re k (Some c) cs))"

definition removeAll :: "bool \<Rightarrow> regex \<Rightarrow> string \<Rightarrow> string" where
  "removeAll ic re s = removeFrom ic re 0 None s"

definition lits :: "string \<Rightarrow> item list" where
  "lits s = map (\<lambda>c. Item False Once (Lit c)) s"

text \<open>\<^verbatim>\<open>/\/\*\*|\*\//g\<close>\<close>

definition commentDelimiters :: regex where
  "commentDelimiters = [lits ''/**'', lits ''*/'']"

text \<open>\<^verbatim>\<open>/^\s*\*\s?/gm\<close>\<close>

definition leadingStar :: regex where
  "leadingStar =
     [[LineStart, Item False ZeroOrMore WhiteSpace, Item False Once (Lit CHR ''*''),
       Item False Optional WhiteSpace]]"

text \<open>
  \<^verbatim>\<open>new RegExp(`@param[^\\n]*${paramName}[^\\n]*-\\s*([^\\n]+)`, 'i')\<close>: in the template
  literal \<open>\\n\<close> and \<open>\\s\<close> are the escapes \<open>\n\<close> and \<open>\s\<close> of the pattern.

  The name is spliced into the source of the pattern as it is, without escaping, so its
  characters are read as pattern syntax. \<open>spliceName\<close> is that reading, character by
  character: a letter, a digit or \<open>_\<close> stands for itself, and \<open>$\<close> is the assertion
  \<open>InputEnd\<close>. These are the characters of an identifier. Any other character (the name
  of a destructured parameter is the text of its binding pattern, with brackets, braces,
  commas and spaces) gives \<open>None\<close>: the pattern built from such a name, or the
  SyntaxError of \<open>new RegExp\<close> for it, is not modelled.
\<close>

definition isIdentifierChar :: "char \<Rightarrow> bool" where
  "isIdentifierChar c =
     (c \<in> set ''abcdefghijklmnopqrstuvwxyzABCDEFGHIJKLMNOPQRSTUVWXYZ0123456789_'')"

fun spliceName :: "string \<Rightarrow> item list option" where
  "spliceName [] = Some []"
| "spliceName (c # cs) =
     (if c = CHR ''$'' then map_option (\<lambda>r. InputEnd # r) (spliceName cs)
      else if isIdentifierChar c then map_option (\<lambda>r. Item False Once (Lit c) # r) (spliceName cs)
      else None)"

definition paramPattern :: "string \<Rightarrow> regex option" where
  "paramPattern paramName =
     map_option
       (\<lambda>name. [lits ''@param'' @ [Item False ZeroOrMore (NoneOf NL)] @ name
                 @ [Item False ZeroOrMore (NoneOf NL), Item False Once (Lit CHR ''-''),
                    Item False ZeroOrMore WhiteSpace, Item True OneOrMore (NoneOf NL)]])
       (spliceName paramName)"

text \<open>
  \<^verbatim>\<open>/@returns?[^\\n]*-\\s*([^\\n]+)/i\<close>: this one is a regular expression literal, where
  \<open>\\\<close> is an escaped backslash. So \<open>[^\\n]\<close> is the class of the characters other
  than a backslash and the letter \<open>n\<close>, and \<open>\\s*\<close> is a backslash followed by any
  number of letters \<open>s\<close>.
\<close>

definition returnPattern :: regex where
  "returnPattern =
     [lits ''@return''
      @ [Item False Optional (Lit CHR ''s''),
         Item False ZeroOrMore (NoneOf [CHR 0x5C, CHR ''n'']),
         Item False Once (Lit CHR ''-''),
         Item False Once (Lit CHR 0x5C),
         Item False ZeroOrMore (Lit CHR ''s''),
         Item True OneOrMore (NoneOf [CHR 0x5C, CHR ''n''])]]"

section \<open>The parsed source files\<close>

text \<open>
  The build scripts read each source file through the ts-morph library. A source file is
  modelled by what the scripts read of it: its top-level statements in source order, each
  a type alias, a function or something else, with the answers of the node methods the
  scripts call (\<open>getName\<close>, \<open>isExported\<close>, \<open>getTypeNode()?.getText()\<close>,
  \<open>getReturnTypeNode()?.getText()\<close>, \<open>getParameters\<close>, \<open>hasQuestionToken\<close>, and the
  texts of \<open>getJsDocs\<close>). A missing node is \<open>None\<close>; so is the name of a function
  declared without one.
\<close>

record parameterNode =
  param_name :: string
  param_typeNode :: "string option"
  param_questionToken :: bool

record typeAliasNode =
  alias_name :: string
  alias_exported :: bool
  alias_typeNode :: "string option"
  alias_jsDocs :: "string list"

record functionNode =
  function_name :: "string option"
  function_exported :: bool
  function_parameters :: "parameterNode list"
  function_returnTypeNode :: "string option"
  function_jsDocs :: "string list"

datatype statement =
    TypeAliasDeclaration typeAliasNode
  | FunctionDeclaration functionNode
  | OtherStatement

type_synonym sourceFile = "statement list"

fun getTypeAliases :: "sourceFile \<Rightarrow> typeAliasNode list" where
  "getTypeAliases [] = []"
| "getTypeAliases (TypeAliasDeclaration t # rest) = t # getTypeAliases rest"
| "getTypeAliases (_ # rest) = getTypeAliases rest"

fun getFunctions :: "sourceFile \<Rightarrow> functionNode list" where
  "getFunctions [] = []"
| "getFunctions (FunctionDeclaration f # rest) = f # getFunctions rest"
| "getFunctions (_ # rest) = getFunctions rest"

text \<open>\<^verbatim>\<open>node?.getText() || 'any'\<close>\<close>

definition textOrAny :: "string option \<Rightarrow> string" where
  "textOrAny node = (if truthy node then textOf node else ''any'')"

text \<open>\<open>extractJSDocComment\<close>: the text of the first documentation comment, or \<open>null\<close>.\<close>

definition extractJSDocComment :: "string list \<Rightarrow> string option" where
  "extractJSDocComment jsDoc = (case jsDoc of [] \<Rightarrow> None | d # _ \<Rightarrow> Some d)"

text \<open>
  \<open>extractCleanComment\<close> (the same function in both scripts): the description lines of
  a documentation comment, joined by spaces.
\<close>

definition commentLines :: "string \<Rightarrow> string list" where
  "commentLines jsdocComment =
     map trim (splitLines (removeAll False leadingStar
                             (removeAll False commentDelimiters jsdocComment)))"

definition extractCleanComment :: "string option \<Rightarrow> string" where
  "extractCleanComment jsdocComment =
     (if \<not> truthy jsdocComment then []
      else trim (joinWith '' ''
             (filter (\<lambda>line. line \<noteq> [] \<and> \<not> startsWith line ''@'')
                (commentLines (textOf jsdocComment)))))"

section \<open>The documentation-comment script (\<open>buildJSDoc\<close>)\<close>

record typeExport =
  type_name :: string
  type_definition :: string
  type_comment :: "string option"

record functionExport =
  func_name :: "string option"
  func_parameters :: "parameterNode list"
  func_returnType :: string
  func_comment :: "string option"
  func_funcNode :: functionNode

text \<open>The object \<open>{ types, functions }\<close> that \<open>extractExportsFromFile\<close> returns.\<close>

record fileExports =
  fe_types :: "typeExport list"
  fe_functions :: "functionExport list"

definition typeExportOf :: "typeAliasNode \<Rightarrow> typeExport" where
  "typeExportOf typeAlias =
     \<lparr>type_name = alias_name typeAlias,
      type_definition = textOrAny (alias_typeNode typeAlias),
      type_comment = extractJSDocComment (alias_jsDocs typeAlias)\<rparr>"

definition functionExportOf :: "functionNode \<Rightarrow> functionExport" where
  "functionExportOf func =
     \<lparr>func_name = function_name func,
      func_parameters = function_parameters func,
      func_returnType = textOrAny (function_returnTypeNode func),
      func_comment = extractJSDocComment (function_jsDocs func),
      func_funcNode = func\<rparr>"

text \<open>\<open>extractExportsFromFile\<close>: two loops, each pushing one record per exported node.\<close>

definition extractExportsFromFile :: "sourceFile \<Rightarrow> fileExports" where
  "extractExportsFromFile sourceFile =
     \<lparr>fe_types = map typeExportOf (filter alias_exported (getTypeAliases sourceFile)),
      fe_functions = map functionExportOf (filter function_exported (getFunctions sourceFile))\<rparr>"

text \<open>
  The loop of \<open>buildJSDoc\<close> over the source files: the types of every file are appended
  to \<open>allTypes\<close>, the functions to \<open>allFunctions\<close>.
\<close>

fun buildJSDoc_collect :: "sourceFile list \<Rightarrow> typeExport list \<times> functionExport list" where
  "buildJSDoc_collect [] = ([], [])"
| "buildJSDoc_collect (sourceFile # rest) =
     (let e = extractExportsFromFile sourceFile; (allTypes, allFunctions) = buildJSDoc_collect rest
      in (fe_types e @ allTypes, fe_functions e @ allFunctions))"

text \<open>
  \<open>getParamDescription(jsdocComment, paramName)\<close>. Without a comment the name is looked
  up in a table and no pattern is built. With a comment the result is \<open>None\<close> when the
  pattern for the name is not modelled (\<open>paramPattern\<close> above), and otherwise the value
  the function returns.
\<close>

definition getParamDescription :: "string option \<Rightarrow> string \<Rightarrow> string option" where
  "getParamDescription jsdocComment paramName =
     (if \<not> truthy jsdocComment then
        Some (if paramName = ''value'' then ''The value to convert to a Date''
              else if paramName = ''defaultValue''
              then ''The default value to return if the value is invalid''
              else ''The '' @ paramName @ '' parameter'')
      else
        (case paramPattern paramName of
           None \<Rightarrow> None
         | Some pattern \<Rightarrow>
             Some (case matchGroup1 True pattern (textOf jsdocComment) of
                     Some group1 \<Rightarrow> trim group1
                   | None \<Rightarrow>
                       if paramName = ''defaultValue''
                       then ''The default value to return if the value is invalid''
                       else ''The value to convert to a Date'')))"

definition getReturnDescription :: "string option \<Rightarrow> string option \<Rightarrow> string" where
  "getReturnDescription jsdocComment functionName =
     (if \<not> truthy jsdocComment then
        (if functionName = Some ''toDate''
         then ''The converted Date or null if the value is invalid''
         else if functionName = Some ''toDateStrict'' then ''The converted Date''
         else if functionName = Some ''isDate'' then ''True if the value is a valid Date object''
         else ''The return value'')
      else
        (case matchGroup1 True returnPattern (textOf jsdocComment) of
           Some group1 \<Rightarrow> trim group1
         | None \<Rightarrow>
             if functionName = Some ''toDate''
             then ''The converted Date or null if the value is invalid''
             else if functionName = Some ''isDate''
             then ''True if the value is a valid Date object''
             else ''The converted Date''))"

definition jsdocTypeLines :: "typeExport \<Rightarrow> string list" where
  "jsdocTypeLines type =
     [''/**'']
     @ (if truthy (type_comment type)
        then ['' * '' @ extractCleanComment (type_comment type)] else [])
     @ ['' * @typedef {'' @ type_definition type @ ''} Utils.'' @ type_name type,
        '' */'',
        []]"

text \<open>
  The lines written for one function. A parameter line ends with the result of
  \<open>getParamDescription\<close>; where that is not modelled for one of the parameters, neither
  are the lines of the function nor the generated text (\<open>None\<close>).
\<close>

definition jsdocParamLine :: "string option \<Rightarrow> parameterNode \<Rightarrow> string option" where
  "jsdocParamLine comment param =
     (let paramName = param_name param;
          paramType = textOrAny (param_typeNode param);
          isOptional = param_questionToken param;
          formattedParamType =
            (if str_includes paramType ''DateValue'' then ''Utils.'' @ paramType else paramType);
          paramStr =
            (if isOptional
             then (if paramName = ''defaultValue'' then ''['' @ paramName @ ''=null]''
                   else ''['' @ paramName @ '']'')
             else paramName)
      in map_option
           (\<lambda>description.
              '' * @param {'' @ formattedParamType @ ''} '' @ paramStr @ '' - '' @ description)
           (getParamDescription comment paramName))"

definition jsdocFunctionLines :: "functionExport \<Rightarrow> string list option" where
  "jsdocFunctionLines func =
     map_option
       (\<lambda>paramLines.
          [''/**'']
          @ (if truthy (func_comment func)
             then (let cleanComment = extractCleanComment (func_comment func)
                   in if trim cleanComment \<noteq> [] then ['' * '' @ cleanComment] else [])
             else [])
          @ ['' * @function Utils.'' @ templ (func_name func)]
          @ paramLines
          @ (let formattedReturnType =
                   (if str_includes (func_returnType func) ''Date''
                    then replaceFirst (func_returnType func) ''undefined'' ''null''
                    else func_returnType func)
             in ['' * @returns {'' @ formattedReturnType @ ''} ''
                   @ getReturnDescription (func_comment func) (func_name func)])
          @ (if func_name func = Some ''toDateStrict''
                \<and> (case func_comment func of
                      None \<Rightarrow> False
                    | Some c \<Rightarrow> str_includes c ''@throws'')
             then ['' * @throws {Error} If the value cannot be converted to a valid Date'']
             else [])
          @ ['' */'', []])
       (those (map (jsdocParamLine (func_comment func)) (func_parameters func)))"

definition generateJSDocFromExports ::
  "typeExport list \<Rightarrow> functionExport list \<Rightarrow> string option" where
  "generateJSDocFromExports allTypes allFunctions =
     (let functionDeclarations = map func_name allFunctions
      in map_option
           (\<lambda>functionBlocks.
              joinWith NL
                ([''/**'', '' * @namespace Utils'', '' */'', []]
                 @ concat (map jsdocTypeLines allTypes)
                 @ concat functionBlocks
                 @ (if length functionDeclarations > 0
                    then [''/**'', '' * @typedef {Object} Utils'']
                         @ map (\<lambda>funcName. '' * @property {function} '' @ templ funcName)
                             functionDeclarations
                         @ ['' */'', []]
                    else [])
                 @ [''/**'', '' * @type {Utils}'', '' */'', ''var Utils = Utils || {}'', []]))
           (those (map jsdocFunctionLines allFunctions)))"

section \<open>The declaration-file script (\<open>buildTypes\<close>)\<close>

record typeInfo =
  tinfo_name :: string
  tinfo_definition :: string
  tinfo_comment :: "string option"

record interfaceInfo =
  iface_name :: "string option"
  iface_signature :: string
  iface_comment :: "string option"

text \<open>
  \<open>generateTypeDeclarations\<close> compares the objects of its \<open>interfaces\<close> array by
  identity (\<open>interfaces.indexOf(func)\<close>), so an element of that array is a reference
  paired with the record it points to; two elements are the same object when their
  references are equal.
\<close>

type_synonym ref = nat

definition paramSignature :: "parameterNode \<Rightarrow> string" where
  "paramSignature param =
     (let paramName = param_name param;
          paramType = textOrAny (param_typeNode param);
          isOptional = param_questionToken param
      in paramName @ (if isOptional then ''?'' else []) @ '': '' @ paramType)"

definition typeInfoOf :: "typeAliasNode \<Rightarrow> typeInfo" where
  "typeInfoOf typeAlias =
     \<lparr>tinfo_name = alias_name typeAlias,
      tinfo_definition = textOrAny (alias_typeNode typeAlias),
      tinfo_comment = extractJSDocComment (alias_jsDocs typeAlias)\<rparr>"

definition interfaceInfoOf :: "functionNode \<Rightarrow> interfaceInfo" where
  "interfaceInfoOf func =
     (let name = function_name func;
          params = function_parameters func;
          returnType = textOrAny (function_returnTypeNode func);
          comment = extractJSDocComment (function_jsDocs func);
          paramSignatures = joinWith '', '' (map paramSignature params)
      in \<lparr>iface_name = name,
          iface_signature = templ name @ ''('' @ paramSignatures @ ''): '' @ returnType,
          iface_comment = comment\<rparr>)"

text \<open>
  The loop of \<open>buildTypes\<close> over the source files. Every \<open>push\<close> stores a new object; the
  reference of an interface record is the number of interface records pushed before it.
\<close>

fun buildTypes_records :: "sourceFile list \<Rightarrow> typeInfo list \<times> interfaceInfo list" where
  "buildTypes_records [] = ([], [])"
| "buildTypes_records (sourceFile # rest) =
     (let (allTypes, allInterfaces) = buildTypes_records rest
      in (map typeInfoOf (filter alias_exported (getTypeAliases sourceFile)) @ allTypes,
          map interfaceInfoOf (filter function_exported (getFunctions sourceFile))
            @ allInterfaces))"

definition buildTypes_collect :: "sourceFile list \<Rightarrow> typeInfo list \<times> (ref \<times> interfaceInfo) list" where
  "buildTypes_collect sourceFiles =
     (let (allTypes, allInterfaces) = buildTypes_records sourceFiles
      in (allTypes, zip [0 ..< length allInterfaces] allInterfaces))"

text \<open>\<open>interfaces.indexOf(func)\<close>: the first index holding the same object, or \<open>-1\<close>.\<close>

fun indexOf :: "(ref \<times> 'a) list \<Rightarrow> ref \<Rightarrow> int" where
  "indexOf [] r = - 1"
| "indexOf (x # xs) r =
     (if fst x = r then 0
      else (let i = indexOf xs r in if i < 0 then - 1 else i + 1))"

definition declTypeLines :: "typeInfo \<Rightarrow> string list" where
  "declTypeLines type =
     (if truthy (tinfo_comment type)
      then (let cleanComment = extractCleanComment (tinfo_comment type)
            in if trim cleanComment \<noteq> []
               then [''    /**'', ''     * '' @ cleanComment, ''     */'']
               else [])
      else [])
     @ [''    type '' @ tinfo_name type @ '' = '' @ tinfo_definition type, []]"

definition isTagLine :: "string \<Rightarrow> bool" where
  "isTagLine line =
     (startsWith line ''@param'' \<or> startsWith line ''@returns'' \<or> startsWith line ''@throws'')"

definition declInterfaceLines :: "(ref \<times> interfaceInfo) list \<Rightarrow> ref \<times> interfaceInfo \<Rightarrow> string list" where
  "declInterfaceLines interfaces func =
     (if truthy (iface_comment (snd func))
      then [''      /**'']
           @ (let cleanComment = extractCleanComment (iface_comment (snd func))
              in if trim cleanComment \<noteq> [] then [''       * '' @ cleanComment] else [])
           @ (let originalLines =
                    filter (\<lambda>line. line \<noteq> [])
                      (commentLines (textOf (iface_comment (snd func))))
              in map (\<lambda>line. ''       * '' @ line) (filter isTagLine originalLines))
           @ [''       */'']
      else [])
     @ [''      '' @ iface_signature (snd func)]
     @ (if indexOf interfaces (fst func) < int (length interfaces) - 1 then [[]] else [])"

definition generateTypeDeclarations :: "typeInfo list \<Rightarrow> (ref \<times> interfaceInfo) list \<Rightarrow> string" where
  "generateTypeDeclarations types interfaces =
     joinWith NL
       ([''declare namespace Lib {'', ''  namespace Utils {'']
        @ concat (map declTypeLines types)
        @ [''    interface Utils {'']
        @ concat (map (declInterfaceLines interfaces) interfaces)
        @ [''    }'', ''  }'', ''}'', [], ''declare var Utils: Lib.Utils.Utils'', []])"

text \<open>The text \<open>buildTypes\<close> writes to \<open>index.d.ts\<close>.\<close>

definition buildTypes_output :: "sourceFile list \<Rightarrow> string" where
  "buildTypes_output sourceFiles =
     (let (allTypes, allInterfaces) = buildTypes_collect sourceFiles
      in generateTypeDeclarations allTypes allInterfaces)"

section \<open>The export list of the specification\<close>

text \<open>
  The specification describes the extractor's result as one ordered list: the
  ExportedType and ExportedFunction records of the declarations marked exported, in
  source order, whatever their kind. \<open>sourceOrderExports\<close> is that list, written from
  the specification's words; the records themselves are the ones the script builds.
\<close>

datatype export = ExportedType typeExport | ExportedFunction functionExport

fun sourceOrderExports :: "sourceFile \<Rightarrow> export list" where
  "sourceOrderExports [] = []"
| "sourceOrderExports (TypeAliasDeclaration t # rest) =
     (if alias_exported t then [ExportedType (typeExportOf t)] else []) @ sourceOrderExports rest"
| "sourceOrderExports (FunctionDeclaration f # rest) =
     (if function_exported f then [ExportedFunction (functionExportOf f)] else [])
     @ sourceOrderExports rest"
| "sourceOrderExports (OtherStatement # rest) = sourceOrderExports rest"

fun exportedTypes :: "export list \<Rightarrow> typeExport list" where
  "exportedTypes [] = []"
| "exportedTypes (ExportedType t # rest) = t # exportedTypes rest"
| "exportedTypes (ExportedFunction f # rest) = exportedTypes rest"

fun exportedFunctions :: "export list \<Rightarrow> functionExport list" where
  "exportedFunctions [] = []"
| "exportedFunctions (ExportedType t # rest) = exportedFunctions rest"
| "exportedFunctions (ExportedFunction f # rest) = f # exportedFunctions rest"

text \<open>
  The records of the returned object \<open>{ types, functions }\<close> read as one list: the types,
  then the functions, which is the order in which every renderer writes them.
\<close>

definition returnedExports :: "fileExports \<Rightarrow> export list" where
  "returnedExports e = map ExportedType (fe_types e) @ map ExportedFunction (fe_functions e)"

fun isExported :: "statement \<Rightarrow> bool" where
  "isExported (TypeAliasDeclaration t) = alias_exported t"
| "isExported (FunctionDeclaration f) = function_exported f"
| "isExported OtherStatement = False"

section \<open>Sample inputs\<close>

text \<open>\<^verbatim>\<open>export type T = string\<close> and \<^verbatim>\<open>export function f(): void {}\<close>, undocumented.\<close>

definition sampleAlias :: typeAliasNode where
  "sampleAlias =
     \<lparr>alias_name = ''T'', alias_exported = True, alias_typeNode = Some ''string'',
      alias_jsDocs = []\<rparr>"

definition sampleFunction :: functionNode where
  "sampleFunction =
     \<lparr>function_name = Some ''f'', function_exported = True, function_parameters = [],
      function_returnTypeNode = Some ''void'', function_jsDocs = []\<rparr>"

text \<open>An undocumented interface record \<open>name(): void\<close>.\<close>

definition plainInterface :: "string \<Rightarrow> interfaceInfo" where
  "plainInterface n =
     \<lparr>iface_name = Some n, iface_signature = n @ ''(): void'', iface_comment = None\<rparr>"

text \<open>
  The exports of scenario A, as \<open>buildTypes\<close> records them, with any documentation
  comment; and a source file that declares them.
\<close>

definition dateValueType :: "string option \<Rightarrow> typeInfo" where
  "dateValueType comment =
     \<lparr>tinfo_name = ''DateValue'',
      tinfo_definition = ''Date | number | string | null | undefined'',
      tinfo_comment = comment\<rparr>"

definition isDateInterface :: "string option \<Rightarrow> interfaceInfo" where
  "isDateInterface comment =
     \<lparr>iface_name = Some ''isDate'',
      iface_signature = ''isDate(value: unknown): boolean'',
      iface_comment = comment\<rparr>"

definition scenarioA_source :: "string list \<Rightarrow> string list \<Rightarrow> sourceFile" where
  "scenarioA_source typeDocs functionDocs =
     [TypeAliasDeclaration
        \<lparr>alias_name = ''DateValue'', alias_exported = True,
         alias_typeNode = Some ''Date | number | string | null | undefined'',
         alias_jsDocs = typeDocs\<rparr>,
      FunctionDeclaration
        \<lparr>function_name = Some ''isDate'', function_exported = True,
         function_parameters =
           [\<lparr>param_name = ''value'', param_typeNode = Some ''unknown'',
             param_questionToken = False\<rparr>],
         function_returnTypeNode = Some ''boolean'',
         function_jsDocs = functionDocs\<rparr>]"

text \<open>
  Two documentation comments of three lines each, one with a documented return value and
  one with a documented parameter, both in the form \<open>tag - description\<close>.
\<close>

definition documentedReturn :: string where
  "documentedReturn = ''/**'' @ NL @ '' * @returns - The parsed text'' @ NL @ '' */''"

definition documentedParam :: string where
  "documentedParam = ''/**'' @ NL @ '' * @param input - The text to read'' @ NL @ '' */''"

text \<open>A tag line without a hyphen, and a comment that documents two parameters.\<close>

definition undashedParam :: string where
  "undashedParam = ''/**'' @ NL @ '' * @param input The text to read'' @ NL @ '' */''"

definition twoParams :: string where
  "twoParams = ''/**'' @ NL @ '' * @param from - Start'' @ NL
     @ '' * @param to - End'' @ NL @ '' */''"

text \<open>
  The two source files of the library as the documentation-comment script reads them:
  \<open>app/code.ts\<close> (in the version whose comments have no \<open>@returns\<close> line) and
  \<open>app/type-check.ts\<close>; and the text of \<open>docs/gas-types.js\<close>, the file the repository
  keeps as the output of that script.
\<close>

definition code_ts :: sourceFile where
  "code_ts =
     [TypeAliasDeclaration
        \<lparr>alias_name = ''DateValue'', alias_exported = True,
         alias_typeNode = Some ''Date | number | string | null | undefined'',
         alias_jsDocs =
           [joinWith NL
             [''/**'',
              '' * Valid date value types that can be converted to Date'',
              '' */'']]\<rparr>,
      FunctionDeclaration
        \<lparr>function_name = Some ''toDate'', function_exported = True,
         function_parameters =
           [\<lparr>param_name = ''value'', param_typeNode = Some ''DateValue'',
             param_questionToken = False\<rparr>,
            \<lparr>param_name = ''defaultValue'', param_typeNode = Some ''Date'',
             param_questionToken = True\<rparr>],
         function_returnTypeNode = Some ''Date | undefined'',
         function_jsDocs =
           [joinWith NL
             [''/**'',
              '' * Returns a Date from the specified argument.'',
              '' * @param value - The value to convert to Date'',
              '' * @param defaultValue - Default Date to return if conversion fails'',
              '' */'']]\<rparr>,
      FunctionDeclaration
        \<lparr>function_name = Some ''toDateStrict'', function_exported = True,
         function_parameters =
           [\<lparr>param_name = ''value'', param_typeNode = Some ''DateValue'',
             param_questionToken = False\<rparr>,
            \<lparr>param_name = ''defaultValue'', param_typeNode = Some ''Date'',
             param_questionToken = True\<rparr>],
         function_returnTypeNode = Some ''Date'',
         function_jsDocs =
           [joinWith NL
             [''/**'',
              '' * Returns a Date from the specified argument, throwing if conversion fails.'',
              '' * @param value - The value to convert to Date'',
              '' * @param defaultValue - Default Date to return if conversion fails'',
              '' */'']]\<rparr>]"

definition type_check_ts :: sourceFile where
  "type_check_ts =
     [FunctionDeclaration
        \<lparr>function_name = Some ''isDate'', function_exported = True,
         function_parameters =
           [\<lparr>param_name = ''value'', param_typeNode = Some ''unknown'',
             param_questionToken = False\<rparr>],
         function_returnTypeNode = Some ''boolean'',
         function_jsDocs =
           [joinWith NL
             [''/**'',
              '' * Returns true if the value is a valid Date object'',
              '' * @param value - The value to convert to Date'',
              '' */'']]\<rparr>]"

definition gas_types_js :: string where
  "gas_types_js =
     joinWith NL
      [''/**'',
       '' * @namespace Utils'',
       '' */'',
       [],
       ''/**'',
       '' * Valid date value types that can be converted to Date'',
       '' * @typedef {Date | number | string | null | undefined} Utils.DateValue'',
       '' */'',
       [],
       ''/**'',
       '' * Returns a Date from the specified argument.'',
       '' * @function Utils.toDate'',
       '' * @param {Utils.DateValue} value - The value to convert to Date'',
       '' * @param {Date} [defaultValue=null] - Default Date to return if conversion fails'',
       '' * @returns {Date | null} The converted Date or null if the value is invalid'',
       '' */'',
       [],
       ''/**'',
       '' * Returns a Date from the specified argument, throwing if conversion fails.'',
       '' * @function Utils.toDateStrict'',
       '' * @param {Utils.DateValue} value - The value to convert to Date'',
       '' * @param {Date} [defaultValue=null] - Default Date to return if conversion fails'',
       '' * @returns {Date} The converted Date'',
       '' */'',
       [],
       ''/**'',
       '' * Returns true if the value is a valid Date object'',
       '' * @function Utils.isDate'',
       '' * @param {unknown} value - The value to convert to Date'',
       '' * @returns {boolean} True if the value is a valid Date object'',
       '' */'',
       [],
       ''/**'',
       '' * @typedef {Object} Utils'',
       '' * @property {function} toDate'',
       '' * @property {function} toDateStrict'',
       '' * @property {function} isDate'',
       '' */'',
       [],
       ''/**'',
       '' * @type {Utils}'',
       '' */'',
       ''var Utils = Utils || {}'',
       []]"

section \<open>Notions used to state what \<open>getParamDescription\<close> recovers\<close>

text \<open>
  \<open>identifierName name\<close>: the name is made of letters, digits and \<open>_\<close>, the names
  that the pattern of \<open>getParamDescription\<close> holds as literal text.
  \<open>occursCI name s\<close>: the name occurs in \<open>s\<close>, in any letter case.
  \<open>clearBefore name pre\<close>: every \<open>@\<close> of \<open>pre\<close> is followed in \<open>pre\<close> by a line
  break, and the name does not occur between that \<open>@\<close> and the line break.
\<close>

definition identifierName :: "string \<Rightarrow> bool" where
  "identifierName name = list_all isIdentifierChar name"

fun occursCI :: "string \<Rightarrow> string \<Rightarrow> bool" where
  "occursCI name [] = (name = [])"
| "occursCI name (c # cs) =
     (map toUpperCase (take (length name) (c # cs)) = map toUpperCase name \<or> occursCI name cs)"

fun clearBefore :: "string \<Rightarrow> string \<Rightarrow> bool" where
  "clearBefore name [] = True"
| "clearBefore name (c # cs) =
     ((c \<noteq> CHR ''@''
        \<or> (CHR 0x0A \<in> set cs \<and> \<not> occursCI name (takeWhile (\<lambda>x. x \<noteq> CHR 0x0A) cs)))
      \<and> clearBefore name cs)"

text \<open>
  The pattern of \<open>getParamDescription\<close> for such a name as one sequence of items, and
  its last three items \<^verbatim>\<open>-\s*([^\n]+)\<close>.
\<close>

definition tailItems :: "item list" where
  "tailItems = [Item False Once (Lit CHR ''-''), Item False ZeroOrMore WhiteSpace,
                Item True OneOrMore (NoneOf NL)]"

definition paramItems :: "string \<Rightarrow> item list" where
  "paramItems name =
     lits ''@param'' @ (Item False ZeroOrMore (NoneOf NL)
       # (lits name @ (Item False ZeroOrMore (NoneOf NL) # tailItems)))"

text \<open>The text of a tag line \<open>@param name - desc\<close> after \<open>@param\<close>, with what follows the line.\<close>

definition afterTag :: "string \<Rightarrow> string \<Rightarrow> string \<Rightarrow> string" where
  "afterTag name desc rest = (CHR '' '' # name @ [CHR '' '']) @ CHR ''-'' # [CHR '' ''] @ desc @ rest"

section \<open>Properties of the date helpers\<close>

subsection \<open>Facts about \<open>TimeClip\<close>\<close>

lemma TimeClip_valid_iff:
  "TimeClip n \<noteq> NaN \<longleftrightarrow> (\<exists>q. n = Finite q \<and> \<bar>q\<bar> \<le> 8640000000000000)"
  by (cases n) (auto simp: TimeClip_def)

lemma TimeClip_valid_value:
  "\<bar>q\<bar> \<le> 8640000000000000 \<Longrightarrow> TimeClip (Finite q) = Finite (of_int (ToInteger q))"
  by (simp add: TimeClip_def)

subsection \<open>Conversion\<close>




text \<open>
  Claim C2: \<open>toDateStrict(v, d)\<close> is \<open>toDate(v, d)\<close> when that is defined, and throws a
  TypeError when it is \<open>undefined\<close>. Scenario C: for a string the engine cannot parse,
  \<open>toDateStrict('bad-input')\<close> throws and \<open>toDateStrict('bad-input', fallbackDate)\<close> is
  \<open>fallbackDate\<close>.
\<close>

theorem toDateStrict_refines_toDate:
  "(toDate parse v dflt = Inr (Some d) \<longrightarrow> toDateStrict parse v dflt = Inr d)
 \<and> (toDate parse v dflt = Inr None \<longrightarrow>
       toDateStrict parse v dflt = Inl (TypeError ''Value cannot be converted to Date''))
 \<and> (parse ''bad-input'' = NaN \<longrightarrow>
       toDateStrict parse (Str ''bad-input'') None
         = Inl (TypeError ''Value cannot be converted to Date'')
     \<and> toDateStrict parse (Str ''bad-input'') (Some fallbackDate) = Inr fallbackDate)"
  by (simp add: toDateStrict_def newDateOfString_def TimeClip_def Number_isNaN_def)

theorem toDateStrict_refines_toDate_witness:
  "toDateStrict sampleParse (Str ''2023-01-01'') None = Inr (Date (Finite 1672531200000))
 \<and> toDateStrict sampleParse Null None = Inl (TypeError ''Value cannot be converted to Date'')
 \<and> toDateStrict sampleParse (Str ''bad-input'') None
       = Inl (TypeError ''Value cannot be converted to Date'')
 \<and> toDateStrict sampleParse (Str ''bad-input'') (Some (Date (Finite 7))) = Inr (Date (Finite 7))"
  using
    toDateStrict_refines_toDate [of sampleParse "Str ''2023-01-01''" None
      "Date (Finite 1672531200000)" "Date (Finite 7)"]
    toDateStrict_refines_toDate [of sampleParse Null None "Date (Finite 0)" "Date (Finite 7)"]
  by (simp add: sampleParse_def newDateOfString_def TimeClip_def Number_isNaN_def ToInteger_def)

subsection \<open>Validity check\<close>

lemma getTime_throws_on_FakeDate:
  "instanceofDate FakeDate \<and> (\<exists>e. getTime FakeDate = Inl e)"
  by simp




subsection \<open>Exceptions\<close>

text \<open>
  Claim C4, as the code has it: for every value other than \<open>FakeDate\<close> and every
  default, \<open>toDate\<close> returns (a Date, the default or \<open>undefined\<close>) and does not throw.
  For \<open>FakeDate\<close> it throws the TypeError of \<open>getTime\<close>, with or without a default,
  and that is the only value for which it throws.
\<close>

theorem toDate_throws_on_FakeDate_only:
  "(v \<noteq> FakeDate \<longrightarrow> (\<exists>r. toDate parse v dflt = Inr r))
 \<and> (toDate parse v dflt = Inl e \<longrightarrow> v = FakeDate)
 \<and> (\<not> instanceofDate v \<longrightarrow> (\<exists>r. toDate parse v dflt = Inr r))
 \<and> toDate parse (DateObj d) dflt \<noteq> Inl e
 \<and> toDate parse FakeDate dflt = Inl (TypeError ''this is not a Date object.'')
 \<and> getTime FakeDate = Inl (TypeError ''this is not a Date object.'')"
  by (cases v) (simp_all add: Let_def)

theorem toDate_throws_on_FakeDate_only_witness:
  "(\<exists>r. toDate sampleParse (Str ''not-a-date'') None = Inr r)
 \<and> (\<exists>r. toDate sampleParse (Bool True) None = Inr r)
 \<and> (\<exists>r. toDate sampleParse PlainObject (Some (Date (Finite 7))) = Inr r)
 \<and> (\<exists>r. toDate sampleParse (DateObj (Date NaN)) None = Inr r)
 \<and> toDate sampleParse FakeDate None = Inl (TypeError ''this is not a Date object.'')"
  using
    toDate_throws_on_FakeDate_only [of FakeDate sampleParse None
      "TypeError ''this is not a Date object.''" "Date NaN"]
    toDate_throws_on_FakeDate_only [of "Str ''not-a-date''" sampleParse None
      "TypeError []" "Date NaN"]
    toDate_throws_on_FakeDate_only [of "Bool True" sampleParse None "TypeError []" "Date NaN"]
    toDate_throws_on_FakeDate_only [of PlainObject sampleParse "Some (Date (Finite 7))"
      "TypeError []" "Date NaN"]
    toDate_throws_on_FakeDate_only [of "DateObj (Date NaN)" sampleParse None
      "TypeError []" "Date NaN"]
  by simp

text \<open>
  The claim as written has no exception for any value. \<open>FakeDate\<close> is a value, also one
  of the declared parameter type, and \<open>toDate\<close> throws on it.
\<close>

theorem toDate_throws_counterexample:
  "toDate sampleParse FakeDate None = Inl (TypeError ''this is not a Date object.'')
 \<and> toDate sampleParse FakeDate (Some (Date (Finite 7)))
      = Inl (TypeError ''this is not a Date object.'')"
  by simp

subsection \<open>Agreement of \<open>toDate\<close> and \<open>isDate\<close>\<close>

text \<open>
  Claim C9: on a Date \<open>d\<close>, \<open>toDate\<close> returns \<open>d\<close> itself when \<open>isDate(d)\<close> is true
  and the default when it is false. Whatever \<open>toDate\<close> returns is either the default or a
  valid Date.
\<close>

theorem toDate_agrees_with_isDate:
  "(isDate (DateObj d) = Inr True \<longrightarrow> toDate parse (DateObj d) dflt = Inr (Some d))
 \<and> (isDate (DateObj d) = Inr False \<longrightarrow> toDate parse (DateObj d) dflt = Inr dflt)
 \<and> (toDate parse v dflt = Inr (Some r) \<longrightarrow> Some r = dflt \<or> isDate (DateObj r) = Inr True)"
  by (cases v) (auto simp: isDate_def Number_isNaN_def Let_def split: if_splits)

theorem toDate_agrees_with_isDate_witness:
  "toDate sampleParse (DateObj (Date (Finite 5))) (Some (Date NaN)) = Inr (Some (Date (Finite 5)))
 \<and> toDate sampleParse (DateObj (Date NaN)) (Some (Date NaN)) = Inr (Some (Date NaN))
 \<and> isDate (DateObj (Date (Finite 1672531200000))) = Inr True"
  using
    toDate_agrees_with_isDate [of "Date (Finite 5)" sampleParse "Some (Date NaN)"
      "Str ''2023-01-01''" "Date (Finite 1672531200000)"]
    toDate_agrees_with_isDate [of "Date NaN" sampleParse "Some (Date NaN)" Null "Date NaN"]
  by (simp add: isDate_def Number_isNaN_def sampleParse_def newDateOfString_def TimeClip_def
      ToInteger_def)

subsection \<open>\<open>toDateStrict\<close> with a default\<close>

text \<open>
  Claim C10, as the code has it: with a default Date supplied, \<open>toDateStrict\<close> returns a
  Date for every value other than \<open>FakeDate\<close>. It throws only when no default is
  supplied or the value is \<open>FakeDate\<close>; for \<open>FakeDate\<close> the exception is the one
  \<open>toDate\<close> lets through, whatever the default.
\<close>

theorem toDateStrict_with_default_throws_on_FakeDate_only:
  "(v \<noteq> FakeDate \<longrightarrow> (\<exists>r. toDateStrict parse v (Some d) = Inr r))
 \<and> (toDateStrict parse v dflt = Inl e \<longrightarrow> dflt = None \<or> v = FakeDate)
 \<and> toDateStrict parse FakeDate dflt = Inl (TypeError ''this is not a Date object.'')"
  by (cases v; cases dflt) (auto simp: toDateStrict_def Let_def)

theorem toDateStrict_with_default_throws_on_FakeDate_only_witness:
  "(\<exists>r. toDateStrict sampleParse (Str ''bad-input'') (Some (Date (Finite 7))) = Inr r)
 \<and> toDateStrict sampleParse (Str ''bad-input'') None
      = Inl (TypeError ''Value cannot be converted to Date'')
 \<and> (\<exists>r. toDateStrict sampleParse PlainObject (Some (Date (Finite 7))) = Inr r)"
  using
    toDateStrict_with_default_throws_on_FakeDate_only [of "Str ''bad-input''" sampleParse
      "Date (Finite 7)" None "TypeError ''Value cannot be converted to Date''"]
    toDateStrict_with_default_throws_on_FakeDate_only [of PlainObject sampleParse
      "Date (Finite 7)" None "TypeError []"]
  by (simp add: toDateStrict_def sampleParse_def newDateOfString_def TimeClip_def Number_isNaN_def)

text \<open>
  The claim as written has no exception once a default is supplied. On \<open>FakeDate\<close>
  the default is never looked at.
\<close>

theorem toDateStrict_counterexample:
  "toDateStrict sampleParse FakeDate (Some (Date (Finite 7)))
     = Inl (TypeError ''this is not a Date object.'')"
  by (simp add: toDateStrict_def)

section \<open>Properties of the build scripts\<close>

subsection \<open>The model against the repository's generated file\<close>

text \<open>
  Run on the two source files of the library, the model of the documentation-comment
  script gives the text of \<open>docs/gas-types.js\<close>, character for character.
\<close>

lemma generateJSDocFromExports_reproduces_gas_types:
  "(case buildJSDoc_collect [code_ts, type_check_ts] of
      (allTypes, allFunctions) \<Rightarrow> generateJSDocFromExports allTypes allFunctions)
     = Some gas_types_js"
  by code_simp

subsection \<open>Recovered descriptions\<close>

text \<open>
  Case folding moves lower-case letters to upper-case letters and nothing else: a
  character that is not a letter matches itself only.
\<close>

lemma toUpperCase_cases:
  "toUpperCase c = c \<or> toUpperCase c \<in> set ''ABCDEFGHIJKLMNOPQRSTUVWXYZ''"
  by (simp add: toUpperCase_def)

lemma toUpperCase_other:
  assumes "x \<notin> set ''abcdefghijklmnopqrstuvwxyz''" and "x \<notin> set ''ABCDEFGHIJKLMNOPQRSTUVWXYZ''"
  shows "toUpperCase x = toUpperCase c \<longleftrightarrow> c = x"
proof -
  have x: "toUpperCase x = x" using assms(1) by (simp add: toUpperCase_def)
  show ?thesis
  proof
    assume "toUpperCase x = toUpperCase c"
    with x have a: "toUpperCase c = x" by simp
    from toUpperCase_cases [of c] show "c = x"
    proof
      assume "toUpperCase c = c"
      with a show ?thesis by simp
    next
      assume "toUpperCase c \<in> set ''ABCDEFGHIJKLMNOPQRSTUVWXYZ''"
      with a assms(2) show ?thesis by metis
    qed
  next
    assume "c = x"
    then show "toUpperCase x = toUpperCase c" by simp
  qed
qed

lemma canonicalize_other:
  assumes "x \<notin> set ''abcdefghijklmnopqrstuvwxyz''" and "x \<notin> set ''ABCDEFGHIJKLMNOPQRSTUVWXYZ''"
  shows "canonicalize ic x = canonicalize ic c \<longleftrightarrow> c = x"
  using toUpperCase_other [OF assms, of c] by (cases ic) (auto simp: canonicalize_def)

lemma lit_at: "atomMatches ic (Lit CHR ''@'') c \<longleftrightarrow> c = CHR ''@''"
  using canonicalize_other [of "CHR ''@''" ic c] by simp

lemma lit_hyphen: "atomMatches ic (Lit CHR ''-'') c \<longleftrightarrow> c = CHR ''-''"
  using canonicalize_other [of "CHR ''-''" ic c] by simp

lemma noneOf_newline: "atomMatches ic (NoneOf NL) c \<longleftrightarrow> c \<noteq> CHR 0x0A"
  using canonicalize_other [of "CHR 0x0A" ic c] by (auto simp: NL_def)

text \<open>The equations of the matcher, one quantifier at a time.\<close>

lemma matchItems_Once:
  "matchItems ic (Item g Once a # r) prev s =
     (case s of
        [] \<Rightarrow> None
      | c # cs \<Rightarrow>
          if atomMatches ic a c then map_option (grab g c) (matchItems ic r (Some c) cs)
          else None)"
  by (cases s) (simp_all add: mandatory_def)

lemma matchItems_Star:
  "matchItems ic (Item g ZeroOrMore a # r) prev s =
     (case s of
        [] \<Rightarrow> matchItems ic r prev []
      | c # cs \<Rightarrow>
          if atomMatches ic a c
          then (case matchItems ic (Item g ZeroOrMore a # r) (Some c) cs of
                  Some m \<Rightarrow> Some (grab g c m)
                | None \<Rightarrow> matchItems ic r prev (c # cs))
          else matchItems ic r prev (c # cs))"
  by (cases s) (simp_all add: mandatory_def)

lemma matchItems_Optional:
  "matchItems ic (Item g Optional a # r) prev s =
     (case s of
        [] \<Rightarrow> matchItems ic r prev []
      | c # cs \<Rightarrow>
          if atomMatches ic a c
          then (case matchItems ic r (Some c) cs of
                  Some m \<Rightarrow> Some (grab g c m)
                | None \<Rightarrow> matchItems ic r prev (c # cs))
          else matchItems ic r prev (c # cs))"
  by (cases s) (simp_all add: mandatory_def)

lemma matchItems_Plus:
  "matchItems ic (Item g OneOrMore a # r) prev s =
     (case s of
        [] \<Rightarrow> None
      | c # cs \<Rightarrow>
          if atomMatches ic a c
          then map_option (grab g c) (matchItems ic (Item g ZeroOrMore a # r) (Some c) cs)
          else None)"
  by (cases s) (simp_all add: mandatory_def)

text \<open>Without a line-start anchor the previous character plays no part.\<close>

lemma star_prev_irrelevant:
  assumes r: "\<And>s p p'. matchItems ic r p s = matchItems ic r p' s"
  shows "matchItems ic (Item g ZeroOrMore a # r) prev s
           = matchItems ic (Item g ZeroOrMore a # r) prev' s"
proof (cases s)
  case Nil
  show ?thesis unfolding Nil using r [of prev "[]" prev'] by (simp add: matchItems_Star)
next
  case (Cons c cs)
  show ?thesis
    unfolding Cons using r [of prev "c # cs" prev']
    by (subst (1 2) matchItems_Star) (simp split: option.split)
qed

lemma prev_irrelevant:
  "LineStart \<notin> set items \<Longrightarrow> matchItems ic items prev s = matchItems ic items prev' s"
proof (induction items arbitrary: s prev prev')
  case Nil
  show ?case by simp
next
  case (Cons x r)
  then have r: "\<And>s p p'. matchItems ic r p s = matchItems ic r p' s" by simp
  show ?case
  proof (cases x)
    case LineStart
    with Cons.prems show ?thesis by simp
  next
    case InputEnd
    show ?thesis unfolding InputEnd using r [of prev "[]" prev'] by simp
  next
    case x: (Item g q a)
    show ?thesis
    proof (cases q)
      case Once
      show ?thesis unfolding x Once matchItems_Once ..
    next
      case Optional
      show ?thesis
        unfolding x Optional matchItems_Optional
        using r [of prev s prev'] r [of prev "[]" prev']
        by (cases s) (simp_all split: option.split)
    next
      case ZeroOrMore
      show ?thesis unfolding x ZeroOrMore using star_prev_irrelevant [OF r] .
    next
      case OneOrMore
      show ?thesis unfolding x OneOrMore matchItems_Plus ..
    qed
  qed
qed

text \<open>A run of literal characters matches the text of its length, letter case aside.\<close>

lemma lits_match:
  "LineStart \<notin> set items \<Longrightarrow>
   matchItems ic (lits p @ items) prev s =
     (if length p \<le> length s
         \<and> map (canonicalize ic) (take (length p) s) = map (canonicalize ic) p
      then map_option (\<lambda>m. (length p + fst m, snd m))
             (matchItems ic items prev (drop (length p) s))
      else None)"
proof (induction p arbitrary: s prev)
  case Nil
  show ?case by (simp add: lits_def option.map_ident)
next
  case (Cons x p)
  have l: "lits (x # p) @ items = Item False Once (Lit x) # (lits p @ items)"
    by (simp add: lits_def)
  show ?case
  proof (cases s)
    case Nil
    then show ?thesis unfolding l matchItems_Once by simp
  next
    case s: (Cons c cs)
    have ih: "matchItems ic (lits p @ items) (Some c) cs =
       (if length p \<le> length cs
           \<and> map (canonicalize ic) (take (length p) cs) = map (canonicalize ic) p
        then map_option (\<lambda>m. (length p + fst m, snd m))
               (matchItems ic items prev (drop (length p) cs))
        else None)"
      using Cons.IH [OF Cons.prems, of "Some c" cs]
        prev_irrelevant [OF Cons.prems, of ic "Some c" "drop (length p) cs" prev]
      by simp
    show ?thesis
      unfolding l matchItems_Once s
      by (auto simp: ih grab_def option.map_comp comp_def)
  qed
qed

text \<open>
  A starred atom: what a match consists of, that a match is found whenever one exists,
  and the match found when the atom cannot go further.
\<close>

lemma star_sound:
  assumes r: "LineStart \<notin> set r"
  shows "matchItems ic (Item g ZeroOrMore a # r) prev s = Some m \<Longrightarrow>
     \<exists>w t m'. s = w @ t \<and> (\<forall>c\<in>set w. atomMatches ic a c)
        \<and> matchItems ic r prev t = Some m'
        \<and> m = (length w + fst m', (if g then w else []) @ snd m')"
proof (induction s arbitrary: prev m)
  case Nil
  then have "matchItems ic r prev [] = Some m" by (simp add: mandatory_def)
  then show ?case
    by (intro exI [of _ "[]"] exI [of _ m]) simp
next
  case (Cons c cs)
  have stop: "matchItems ic r prev (c # cs) = Some m \<Longrightarrow> ?case"
    by (rule exI [of _ "[]"], rule exI [of _ "c # cs"], rule exI [of _ m]) simp
  show ?case
  proof (cases "atomMatches ic a c")
    case False
    with Cons.prems have "matchItems ic r prev (c # cs) = Some m"
      by (simp add: mandatory_def)
    then show ?thesis by (rule stop)
  next
    case True
    show ?thesis
    proof (cases "matchItems ic (Item g ZeroOrMore a # r) (Some c) cs")
      case None
      with True Cons.prems have "matchItems ic r prev (c # cs) = Some m"
        by (simp add: mandatory_def)
      then show ?thesis by (rule stop)
    next
      case (Some m1)
      with True Cons.prems have m: "m = grab g c m1"
        by (simp add: mandatory_def)
      from Cons.IH [OF Some] obtain w t m' where
        w1: "cs = w @ t" and w2: "\<forall>x\<in>set w. atomMatches ic a x"
        and w3: "matchItems ic r (Some c) t = Some m'"
        and w4: "m1 = (length w + fst m', (if g then w else []) @ snd m')"
        by auto
      have w5: "matchItems ic r prev t = Some m'"
        using w3 prev_irrelevant [OF r, of ic prev t "Some c"] by simp
      show ?thesis
        by (rule exI [of _ "c # w"], rule exI [of _ t], rule exI [of _ m'])
          (simp add: w1 w2 w5 True m w4 grab_def)
    qed
  qed
qed

lemma star_complete:
  assumes r: "LineStart \<notin> set r"
  shows "\<forall>c\<in>set w. atomMatches ic a c \<Longrightarrow> matchItems ic r prev t \<noteq> None
     \<Longrightarrow> matchItems ic (Item g ZeroOrMore a # r) prev (w @ t) \<noteq> None"
proof (induction w arbitrary: prev)
  case Nil
  then show ?case
    by (cases t) (auto simp: mandatory_def split: option.split)
next
  case (Cons c w)
  have "matchItems ic r (Some c) t \<noteq> None"
    using Cons.prems(2) prev_irrelevant [OF r, of ic prev t "Some c"] by simp
  with Cons have "matchItems ic (Item g ZeroOrMore a # r) (Some c) (w @ t) \<noteq> None"
    by simp
  with Cons.prems(1) show ?case
    by (auto simp: mandatory_def split: option.split)
qed

lemma star_max:
  assumes r: "LineStart \<notin> set r"
  shows "\<forall>c\<in>set w. atomMatches ic a c \<Longrightarrow> t = [] \<or> \<not> atomMatches ic a (hd t)
     \<Longrightarrow> matchItems ic r prev t = Some m'
     \<Longrightarrow> matchItems ic (Item g ZeroOrMore a # r) prev (w @ t)
           = Some (length w + fst m', (if g then w else []) @ snd m')"
proof (induction w arbitrary: prev)
  case Nil
  then show ?case
    by (cases t) (auto simp: mandatory_def)
next
  case (Cons c w)
  have "matchItems ic r (Some c) t = Some m'"
    using Cons.prems(3) prev_irrelevant [OF r, of ic prev t "Some c"] by simp
  with Cons have "matchItems ic (Item g ZeroOrMore a # r) (Some c) (w @ t)
      = Some (length w + fst m', (if g then w else []) @ snd m')"
    by simp
  with Cons.prems(1) show ?case
    by (simp add: mandatory_def grab_def)
qed

text \<open>The pattern of \<open>getParamDescription\<close> on a tag line.\<close>

lemma lineStart_free:
  "LineStart \<notin> set tailItems"
  "LineStart \<notin> set (Item False ZeroOrMore (NoneOf NL) # tailItems)"
  "LineStart \<notin> set (lits name @ (Item False ZeroOrMore (NoneOf NL) # tailItems))"
  "LineStart \<notin> set (Item False ZeroOrMore (NoneOf NL)
      # (lits name @ (Item False ZeroOrMore (NoneOf NL) # tailItems)))"
  by (auto simp: tailItems_def lits_def)

text \<open>The last three items on the text that follows the name: an exact result.\<close>

lemma capture_of_line:
  assumes nl: "CHR 0x0A \<notin> set desc"
    and vis: "\<exists>c\<in>set desc. \<not> isWhiteSpace c"
    and rest: "rest = [] \<or> hd rest = CHR 0x0A"
  shows "matchItems ic [Item False ZeroOrMore WhiteSpace, Item True OneOrMore (NoneOf NL)] prev
           (CHR '' '' # desc @ rest)
         = Some (Suc (length desc), dropWhile isWhiteSpace desc)"
proof -
  let ?w = "takeWhile isWhiteSpace desc"
  let ?d = "dropWhile isWhiteSpace desc"
  from vis have d: "?d \<noteq> []" by (simp add: dropWhile_eq_Nil_conv)
  then obtain c0 d' where c0: "?d = c0 # d'" by (cases ?d) auto
  have c0ws: "\<not> isWhiteSpace c0" using hd_dropWhile [OF d] c0 by simp
  then have c0nl: "c0 \<noteq> CHR 0x0A" by (auto simp: isWhiteSpace_def)
  have "set d' \<subseteq> set desc" using set_dropWhileD [of _ isWhiteSpace desc] c0 by auto
  with nl have d'nl: "\<forall>c\<in>set d'. atomMatches ic (NoneOf NL) c"
    by (auto simp: noneOf_newline simp del: atomMatches.simps)
  have stop: "rest = [] \<or> \<not> atomMatches ic (NoneOf NL) (hd rest)"
    using rest by (auto simp: noneOf_newline simp del: atomMatches.simps)
  have star: "matchItems ic [Item True ZeroOrMore (NoneOf NL)] (Some c0) (d' @ rest)
                = Some (length d', d')"
    using star_max [of "[]" d' ic "NoneOf NL" rest "Some c0" "(0, [])" True, OF _ d'nl stop]
    by simp
  have plus: "matchItems ic [Item True OneOrMore (NoneOf NL)] p (?d @ rest)
                = Some (length ?d, ?d)" for p
    unfolding c0 using c0nl star
    by (simp add: mandatory_def noneOf_newline grab_def del: atomMatches.simps)
  have ws: "\<forall>c\<in>set (CHR '' '' # ?w). atomMatches ic WhiteSpace c"
    using set_takeWhileD [of _ isWhiteSpace desc] by (auto simp: isWhiteSpace_def)
  have stop2: "?d @ rest = [] \<or> \<not> atomMatches ic WhiteSpace (hd (?d @ rest))"
    using c0 c0ws by simp
  have split: "CHR '' '' # desc @ rest = (CHR '' '' # ?w) @ (?d @ rest)" by simp
  have len: "length (CHR '' '' # ?w) + fst (length ?d, ?d) = Suc (length desc)"
    using length_append [of ?w ?d] by simp
  show ?thesis
    unfolding split
    using star_max [of "[Item True OneOrMore (NoneOf NL)]" "CHR '' '' # ?w" ic WhiteSpace
        "?d @ rest" prev "(length ?d, ?d)" False, OF _ ws stop2 plus]
    unfolding len by simp
qed

lemma tail_of_line:
  assumes nl: "CHR 0x0A \<notin> set desc"
    and vis: "\<exists>c\<in>set desc. \<not> isWhiteSpace c"
    and rest: "rest = [] \<or> hd rest = CHR 0x0A"
  shows "matchItems ic tailItems prev (CHR ''-'' # CHR '' '' # desc @ rest)
         = Some (Suc (Suc (length desc)), dropWhile isWhiteSpace desc)"
  unfolding tailItems_def
  using capture_of_line [OF assms, of ic "Some CHR ''-''"]
  by (subst matchItems_Once) (simp add: lit_hyphen grab_def del: atomMatches.simps matchItems.simps)

lemma canonicalize_newline_free:
  "map (canonicalize ic) v = map (canonicalize ic) p \<Longrightarrow> CHR 0x0A \<notin> set p
     \<Longrightarrow> CHR 0x0A \<notin> set v"
proof (induction v arbitrary: p)
  case Nil
  show ?case by simp
next
  case (Cons c v)
  then obtain x p' where p: "p = x # p'" by (cases p) auto
  with Cons.prems have "canonicalize ic c = canonicalize ic x" and "x \<noteq> CHR 0x0A"
    and "map (canonicalize ic) v = map (canonicalize ic) p'" and "CHR 0x0A \<notin> set p'"
    by auto
  moreover from this have "c \<noteq> CHR 0x0A"
    using canonicalize_other [of "CHR 0x0A" ic x] by auto
  ultimately show ?case using Cons.IH [of p'] by simp
qed

text \<open>
  Where a separator \<open>h\<close> stands on a line: if the text before it is free of line breaks,
  it is the first \<open>h\<close> of the line.
\<close>

lemma separator_unique:
  assumes eq: "xs @ h # y1 @ rest = u @ h # t3"
    and xs: "h \<notin> set xs" and y1: "h \<notin> set y1" and u: "CHR 0x0A \<notin> set u"
    and h: "h \<noteq> CHR 0x0A" and rest: "rest = [] \<or> hd rest = CHR 0x0A"
  shows "u = xs \<and> t3 = y1 @ rest"
proof -
  from eq obtain z where
    "(xs = u @ z \<and> z @ h # y1 @ rest = h # t3) \<or> (xs @ z = u \<and> h # y1 @ rest = z @ h # t3)"
    by (auto simp: append_eq_append_conv2)
  then show ?thesis
  proof
    assume a: "xs = u @ z \<and> z @ h # y1 @ rest = h # t3"
    show ?thesis
    proof (cases z)
      case Nil
      with a show ?thesis by simp
    next
      case (Cons b z')
      with a have "b = h" by simp
      with a Cons xs show ?thesis by simp
    qed
  next
    assume b: "xs @ z = u \<and> h # y1 @ rest = z @ h # t3"
    show ?thesis
    proof (cases z)
      case Nil
      with b show ?thesis by simp
    next
      case (Cons b' z')
      with b have z': "y1 @ rest = z' @ h # t3" and nl: "CHR 0x0A \<notin> set z'"
        using u by auto
      from z' obtain z2 where
        "(y1 = z' @ z2 \<and> z2 @ rest = h # t3) \<or> (y1 @ z2 = z' \<and> rest = z2 @ h # t3)"
        by (auto simp: append_eq_append_conv2)
      then have False
      proof
        assume c: "y1 = z' @ z2 \<and> z2 @ rest = h # t3"
        show False
        proof (cases z2)
          case Nil
          with c have "rest = h # t3" by simp
          with rest h show False by auto
        next
          case (Cons d z2')
          with c have "d = h" by simp
          with c Cons y1 show False by simp
        qed
      next
        assume d: "y1 @ z2 = z' \<and> rest = z2 @ h # t3"
        show False
        proof (cases z2)
          case Nil
          with d have "rest = h # t3" by simp
          with rest h show False by auto
        next
          case (Cons e z2')
          with d have "rest = e # z2' @ h # t3" by simp
          with rest have "e = CHR 0x0A" by auto
          with d Cons nl show False by auto
        qed
      qed
      then show ?thesis ..
    qed
  qed
qed

lemma spliceName_identifierName:
  "identifierName name \<Longrightarrow> spliceName name = Some (lits name)"
proof (induction name)
  case Nil
  show ?case by (simp add: lits_def)
next
  case (Cons c cs)
  then have c: "isIdentifierChar c" and cs: "spliceName cs = Some (lits cs)"
    by (simp_all add: identifierName_def)
  have "\<not> isIdentifierChar CHR ''$''" by (simp add: isIdentifierChar_def)
  with c have "c \<noteq> CHR ''$''" by blast
  with c cs show ?case by (simp add: lits_def)
qed

lemma paramPattern_paramItems:
  "identifierName name \<Longrightarrow> paramPattern name = Some [paramItems name]"
  by (simp add: paramPattern_def spliceName_identifierName paramItems_def tailItems_def)

lemma tagLine_afterTag:
  "''@param '' @ name @ '' - '' @ desc @ rest = ''@param'' @ afterTag name desc rest"
  by (simp add: afterTag_def)

lemma paramItems_start:
  "matchItems ic (paramItems name) prev (''@param'' @ s)
     = map_option (\<lambda>m. (length ''@param'' + fst m, snd m))
         (matchItems ic (Item False ZeroOrMore (NoneOf NL)
            # (lits name @ (Item False ZeroOrMore (NoneOf NL) # tailItems))) prev s)"
  unfolding paramItems_def
  by (subst lits_match [OF lineStart_free(4)]) simp

lemma paramItems_succeeds:
  assumes nl: "CHR 0x0A \<notin> set desc"
    and vis: "\<exists>c\<in>set desc. \<not> isWhiteSpace c"
    and rest: "rest = [] \<or> hd rest = CHR 0x0A"
    and name: "CHR 0x0A \<notin> set name"
  shows "matchItems ic (paramItems name) prev (''@param'' @ afterTag name desc rest) \<noteq> None"
proof -
  have t: "matchItems ic tailItems prev (CHR ''-'' # CHR '' '' # desc @ rest) \<noteq> None"
    using tail_of_line [OF nl vis rest, of ic prev] by simp
  have sp: "\<forall>c\<in>set [CHR '' '']. atomMatches ic (NoneOf NL) c"
    by (simp add: noneOf_newline del: atomMatches.simps)
  have s2: "matchItems ic (Item False ZeroOrMore (NoneOf NL) # tailItems) prev
              ([CHR '' ''] @ CHR ''-'' # CHR '' '' # desc @ rest) \<noteq> None"
    using star_complete [OF lineStart_free(1) sp t] .
  have n: "matchItems ic (lits name @ (Item False ZeroOrMore (NoneOf NL) # tailItems)) prev
             (name @ [CHR '' ''] @ CHR ''-'' # CHR '' '' # desc @ rest) \<noteq> None"
    using s2 by (subst lits_match [OF lineStart_free(2)]) simp
  have s1: "matchItems ic (Item False ZeroOrMore (NoneOf NL)
              # (lits name @ (Item False ZeroOrMore (NoneOf NL) # tailItems))) prev
              ([CHR '' ''] @ name @ [CHR '' ''] @ CHR ''-'' # CHR '' '' # desc @ rest) \<noteq> None"
    using star_complete [OF lineStart_free(3) sp n] .
  have "afterTag name desc rest
          = [CHR '' ''] @ name @ [CHR '' ''] @ CHR ''-'' # CHR '' '' # desc @ rest"
    by (simp add: afterTag_def)
  with s1 show ?thesis
    unfolding paramItems_start by simp
qed

lemma paramItems_capture:
  assumes nl: "CHR 0x0A \<notin> set desc"
    and vis: "\<exists>c\<in>set desc. \<not> isWhiteSpace c"
    and rest: "rest = [] \<or> hd rest = CHR 0x0A"
    and name: "CHR 0x0A \<notin> set name"
    and hy: "CHR ''-'' \<notin> set name" "CHR ''-'' \<notin> set desc"
    and m: "matchItems ic (paramItems name) prev (''@param'' @ afterTag name desc rest) = Some m"
  shows "snd m = dropWhile isWhiteSpace desc"
proof -
  let ?N = "Item False ZeroOrMore (NoneOf NL)"
  from m obtain m1 where m1:
    "matchItems ic (?N # (lits name @ (?N # tailItems))) prev (afterTag name desc rest) = Some m1"
    and c1: "snd m = snd m1"
    unfolding paramItems_start by auto
  from star_sound [OF lineStart_free(3) m1] obtain w1 t1 m2 where
    a1: "afterTag name desc rest = w1 @ t1"
    and w1: "\<forall>c\<in>set w1. atomMatches ic (NoneOf NL) c"
    and m2: "matchItems ic (lits name @ (?N # tailItems)) prev t1 = Some m2"
    and c2: "m1 = (length w1 + fst m2, (if False then w1 else []) @ snd m2)"
    by blast
  from m2 obtain m3 where
    l: "length name \<le> length t1"
    and v: "map (canonicalize ic) (take (length name) t1) = map (canonicalize ic) name"
    and m3: "matchItems ic (?N # tailItems) prev (drop (length name) t1) = Some m3"
    and c3: "snd m2 = snd m3"
    by (subst (asm) lits_match [OF lineStart_free(2)]) (auto split: if_splits)
  from star_sound [OF lineStart_free(1) m3] obtain w2 t2 m4 where
    a2: "drop (length name) t1 = w2 @ t2"
    and w2: "\<forall>c\<in>set w2. atomMatches ic (NoneOf NL) c"
    and m4: "matchItems ic tailItems prev t2 = Some m4"
    and c4: "m3 = (length w2 + fst m4, (if False then w2 else []) @ snd m4)"
    by blast
  from m4 obtain t3 where t2: "t2 = CHR ''-'' # t3"
    unfolding tailItems_def
    by (subst (asm) matchItems_Once)
      (auto simp: lit_hyphen simp del: atomMatches.simps matchItems.simps split: list.splits if_splits)
  let ?u = "w1 @ take (length name) t1 @ w2"
  have "t1 = take (length name) t1 @ drop (length name) t1" by simp
  with a1 a2 t2 have whole: "afterTag name desc rest = ?u @ CHR ''-'' # t3"
    by (metis append.assoc)
  have unl: "CHR 0x0A \<notin> set ?u"
    using w1 w2 canonicalize_newline_free [OF v name]
    by (auto simp: noneOf_newline simp del: atomMatches.simps)
  have xs: "CHR ''-'' \<notin> set (CHR '' '' # name @ [CHR '' ''])" using hy(1) by simp
  have y1: "CHR ''-'' \<notin> set ([CHR '' ''] @ desc)" using hy(2) by simp
  have "(CHR '' '' # name @ [CHR '' '']) @ CHR ''-'' # ([CHR '' ''] @ desc) @ rest
          = ?u @ CHR ''-'' # t3"
    using whole by (simp add: afterTag_def)
  from separator_unique [OF this xs y1 unl _ rest]
  have "t3 = ([CHR '' ''] @ desc) @ rest" by simp
  with t2 m4 have "matchItems ic tailItems prev (CHR ''-'' # CHR '' '' # desc @ rest) = Some m4"
    by simp
  with tail_of_line [OF nl vis rest, of ic prev]
  have "snd m4 = dropWhile isWhiteSpace desc" by simp
  with c1 c2 c3 c4 show ?thesis by simp
qed

lemma paramItems_first:
  "\<exists>r. paramItems name = Item False Once (Lit CHR ''@'') # r"
  by (simp add: paramItems_def lits_def)

lemma no_match_before_tag:
  assumes "c \<noteq> CHR ''@''"
  shows "matchRegex ic [paramItems name] prev (c # cs) = None"
proof -
  obtain r where r: "paramItems name = Item False Once (Lit CHR ''@'') # r"
    using paramItems_first by blast
  have "matchItems ic (paramItems name) prev (c # cs) = None"
    unfolding r matchItems_Once using assms by (simp add: lit_at del: atomMatches.simps)
  then show ?thesis
    by (simp del: matchItems.simps)
qed

text \<open>Earlier tag lines.\<close>

lemma occursCI_here:
  "map toUpperCase v = map toUpperCase name \<Longrightarrow> occursCI name (v @ b)"
proof -
  assume v: "map toUpperCase v = map toUpperCase name"
  then have l: "length v = length name" by (metis length_map)
  show ?thesis
  proof (cases "v @ b")
    case Nil
    with l show ?thesis by simp
  next
    case (Cons c cs)
    have "take (length name) (v @ b) = v" using l by simp
    with v Cons show ?thesis by (metis occursCI.simps(2))
  qed
qed

lemma occursCI_later: "occursCI name s \<Longrightarrow> occursCI name (a @ s)"
  by (induction a) simp_all

lemma occursCI_inside:
  "map toUpperCase v = map toUpperCase name \<Longrightarrow> occursCI name (a @ v @ b)"
  using occursCI_here occursCI_later by blast

lemma canonicalize_True: "canonicalize True = toUpperCase"
  by (rule ext) (simp add: canonicalize_def)

lemma takeWhile_newline_free:
  "CHR 0x0A \<notin> set r \<Longrightarrow>
   takeWhile (\<lambda>x. x \<noteq> CHR 0x0A) (r @ z) = r @ takeWhile (\<lambda>x. x \<noteq> CHR 0x0A) z"
  by (induction r) auto

text \<open>
  No match starts at an \<open>@\<close> that stands on an earlier line on which the name does not
  follow it.
\<close>

lemma no_match_at_earlier_tag:
  assumes name: "CHR 0x0A \<notin> set name"
    and nl: "CHR 0x0A \<in> set cs"
    and occ: "\<not> occursCI name (takeWhile (\<lambda>x. x \<noteq> CHR 0x0A) cs)"
  shows "matchRegex True [paramItems name] prev (CHR ''@'' # cs @ L) = None"
proof (rule ccontr)
  let ?N = "Item False ZeroOrMore (NoneOf NL)"
  let ?s = "CHR ''@'' # cs @ L"
  assume "matchRegex True [paramItems name] prev ?s \<noteq> None"
  then obtain m where m: "matchItems True (paramItems name) prev ?s = Some m"
    by (auto simp del: matchItems.simps split: option.splits)
  from m obtain m1 where
    l6: "length ''@param'' \<le> length ?s"
    and x6: "map (canonicalize True) (take (length ''@param'') ?s) = map (canonicalize True) ''@param''"
    and m1: "matchItems True (?N # (lits name @ (?N # tailItems))) prev
               (drop (length ''@param'') ?s) = Some m1"
    unfolding paramItems_def
    by (subst (asm) lits_match [OF lineStart_free(4)])
      (auto simp del: matchItems.simps split: if_splits)
  from star_sound [OF lineStart_free(3) m1] obtain w1 t1 m2 where
    a1: "drop (length ''@param'') ?s = w1 @ t1"
    and w1: "\<forall>c\<in>set w1. atomMatches True (NoneOf NL) c"
    and m2: "matchItems True (lits name @ (?N # tailItems)) prev t1 = Some m2"
    by blast
  from m2 have
    l: "length name \<le> length t1"
    and v: "map (canonicalize True) (take (length name) t1) = map (canonicalize True) name"
    by (subst (asm) lits_match [OF lineStart_free(2)], auto split: if_splits)+
  let ?x = "take (length ''@param'') ?s"
  let ?v = "take (length name) t1"
  have s: "?s = ?x @ w1 @ ?v @ drop (length name) t1"
    using a1 by (metis append_take_drop_id)
  have xnl: "CHR 0x0A \<notin> set ?x"
    using canonicalize_newline_free [OF x6] by simp
  have vnl: "CHR 0x0A \<notin> set ?v"
    using canonicalize_newline_free [OF v name] .
  have w1nl: "CHR 0x0A \<notin> set w1"
    using w1 by (auto simp: noneOf_newline simp del: atomMatches.simps)
  obtain x' where x': "?x = CHR ''@'' # x'" by simp
  let ?r = "x' @ w1 @ ?v"
  have rnl: "CHR 0x0A \<notin> set ?r" using xnl vnl w1nl x' by (metis Un_iff set_append set_subset_Cons subsetD)
  have e: "cs @ L = ?r @ drop (length name) t1"
    using s x' by (metis append.assoc append_Cons list.inject)
  have tw: "takeWhile (\<lambda>x. x \<noteq> CHR 0x0A) (cs @ L)
      = ?r @ takeWhile (\<lambda>x. x \<noteq> CHR 0x0A) (drop (length name) t1)"
    unfolding e by (rule takeWhile_newline_free [OF rnl])
  have "takeWhile (\<lambda>x. x \<noteq> CHR 0x0A) (cs @ L) = takeWhile (\<lambda>x. x \<noteq> CHR 0x0A) cs"
    using nl by (simp add: takeWhile_append1)
  with tw have "takeWhile (\<lambda>x. x \<noteq> CHR 0x0A) cs
      = (x' @ w1) @ ?v @ takeWhile (\<lambda>x. x \<noteq> CHR 0x0A) (drop (length name) t1)"
    by (simp only: append_assoc)
  moreover have "map toUpperCase ?v = map toUpperCase name"
    using v by (simp only: canonicalize_True)
  ultimately have "occursCI name (takeWhile (\<lambda>x. x \<noteq> CHR 0x0A) cs)"
    using occursCI_inside by metis
  with occ show False ..
qed

lemma search_skips_clear:
  "clearBefore name pre \<Longrightarrow> CHR 0x0A \<notin> set name \<Longrightarrow> s \<noteq> [] \<Longrightarrow>
   \<exists>p. searchFrom True [paramItems name] prev (pre @ s)
        = searchFrom True [paramItems name] p s"
proof (induction pre arbitrary: prev)
  case Nil
  show ?case by auto
next
  case (Cons c pre)
  have "matchRegex True [paramItems name] prev (c # pre @ s) = None"
  proof (cases "c = CHR ''@''")
    case False
    then show ?thesis by (rule no_match_before_tag)
  next
    case True
    with Cons.prems(1) have "CHR 0x0A \<in> set pre"
      and "\<not> occursCI name (takeWhile (\<lambda>x. x \<noteq> CHR 0x0A) pre)"
      by simp_all
    from no_match_at_earlier_tag [OF Cons.prems(2) this] True show ?thesis by simp
  qed
  then have "searchFrom True [paramItems name] prev ((c # pre) @ s)
      = searchFrom True [paramItems name] (Some c) (pre @ s)"
    by simp
  moreover from Cons.prems have "clearBefore name pre" by simp
  ultimately show ?case using Cons.IH [of "Some c"] Cons.prems by auto
qed

lemma clearBefore_no_tag: "CHR ''@'' \<notin> set pre \<Longrightarrow> clearBefore name pre"
  by (induction pre) auto

lemma lit_other:
  assumes "x \<notin> set ''abcdefghijklmnopqrstuvwxyz''" and "x \<notin> set ''ABCDEFGHIJKLMNOPQRSTUVWXYZ''"
  shows "atomMatches ic (Lit x) c \<longleftrightarrow> c = x"
  using canonicalize_other [OF assms, of ic c] by simp

text \<open>
  A sequence with a mandatory literal that is not a letter matches no text without that
  character.
\<close>

lemma matchItems_needs_literal:
  assumes x: "x \<notin> set ''abcdefghijklmnopqrstuvwxyz''" "x \<notin> set ''ABCDEFGHIJKLMNOPQRSTUVWXYZ''"
  shows "Item False Once (Lit x) \<in> set items \<Longrightarrow> x \<notin> set s
     \<Longrightarrow> matchItems ic items prev s = None"
proof (induction ic items prev s rule: matchItems.induct)
  case (1 ic prev s)
  then show ?case by simp
next
  case (2 ic r prev s)
  then show ?case by simp
next
  case (3 ic g q a r prev)
  then show ?case by (auto simp: mandatory_def)
next
  case (4 ic g q a r prev c cs)
  show ?case
  proof (cases "Item g q a = Item False Once (Lit x)")
    case True
    then have a: "a = Lit x" and q: "q = Once" by simp_all
    from "4.prems" have "c \<noteq> x" by auto
    then have "\<not> atomMatches ic a c" unfolding a using lit_other [OF x] by blast
    with q show ?thesis by (simp add: mandatory_def)
  next
    case False
    with "4.prems" have r: "Item False Once (Lit x) \<in> set r"
      and c: "x \<notin> set cs" and cc: "x \<notin> set (c # cs)"
      by auto
    from r have r': "Item False Once (Lit x) \<in> set (Item g ZeroOrMore a # r)" by simp
    show ?thesis
    proof (cases "atomMatches ic a c")
      case True
      then show ?thesis
        using "4.IH"(1) [OF True _ r c] "4.IH"(2) [OF True _ r c] "4.IH"(3) [OF True _ _ r cc]
          "4.IH"(4) [OF True _ r' c] "4.IH"(5) [OF True _ _ r cc] "4.IH"(6) [OF True _ r' c]
        by (cases q) simp_all
    next
      case f: False
      then show ?thesis
        using "4.IH"(7) [OF f _ r cc] by (cases "mandatory q") simp_all
    qed
  qed
next
  case (5 ic r prev s)
  then show ?case by simp
qed

lemma searchFrom_needs_literal:
  assumes x: "x \<notin> set ''abcdefghijklmnopqrstuvwxyz''" "x \<notin> set ''ABCDEFGHIJKLMNOPQRSTUVWXYZ''"
    and i: "Item False Once (Lit x) \<in> set items"
  shows "x \<notin> set s \<Longrightarrow> searchFrom ic [items] prev s = None"
  by (induction s arbitrary: prev) (simp_all add: matchItems_needs_literal [OF x i])

text \<open>
  A documentation comment without a hyphen gives the table's text for every parameter;
  one without a backslash gives the table's text for the return value.
\<close>

lemma getParamDescription_without_hyphen:
  assumes "comment \<noteq> []" and "CHR ''-'' \<notin> set comment"
  shows "getParamDescription (Some comment) paramName =
     map_option
       (\<lambda>pattern. if paramName = ''defaultValue''
                  then ''The default value to return if the value is invalid''
                  else ''The value to convert to a Date'')
       (paramPattern paramName)"
proof (cases "spliceName paramName")
  case None
  then show ?thesis
    using assms(1) by (simp add: getParamDescription_def paramPattern_def truthy_def)
next
  case (Some name)
  let ?items = "lits ''@param'' @ [Item False ZeroOrMore (NoneOf NL)] @ name
      @ [Item False ZeroOrMore (NoneOf NL), Item False Once (Lit CHR ''-''),
         Item False ZeroOrMore WhiteSpace, Item True OneOrMore (NoneOf NL)]"
  have p: "paramPattern paramName = Some [?items]"
    using Some by (simp add: paramPattern_def)
  have "Item False Once (Lit CHR ''-'') \<in> set ?items"
    by simp
  from searchFrom_needs_literal [OF _ _ this assms(2), of True None]
  have "matchGroup1 True [?items] comment = None"
    by (simp add: matchGroup1_def)
  with assms(1) show ?thesis
    unfolding getParamDescription_def p
    by (simp add: truthy_def textOf_def)
qed

lemma getReturnDescription_without_backslash:
  assumes "comment \<noteq> []" and "CHR 0x5C \<notin> set comment"
  shows "getReturnDescription (Some comment) functionName =
     (if functionName = Some ''toDate''
      then ''The converted Date or null if the value is invalid''
      else if functionName = Some ''isDate'' then ''True if the value is a valid Date object''
      else ''The converted Date'')"
proof -
  obtain items where items: "returnPattern = [items]"
    and i: "Item False Once (Lit CHR 0x5C) \<in> set items"
    by (simp add: returnPattern_def)
  from searchFrom_needs_literal [OF _ _ i assms(2), of True None]
  have "matchGroup1 True returnPattern comment = None"
    by (simp add: matchGroup1_def items)
  with assms(1) show ?thesis
    by (simp add: getReturnDescription_def truthy_def textOf_def)
qed

text \<open>The description of a tag line \<open>@param name - description\<close> is recovered.\<close>

lemma identifierName_chars:
  assumes "identifierName name"
  shows "CHR 0x0A \<notin> set name \<and> CHR ''-'' \<notin> set name"
proof -
  have "\<not> isIdentifierChar (CHR 0x0A)" and "\<not> isIdentifierChar CHR ''-''"
    by (simp_all add: isIdentifierChar_def)
  moreover have "\<forall>c\<in>set name. isIdentifierChar c"
    using assms by (simp add: identifierName_def list_all_iff)
  ultimately show ?thesis by blast
qed

lemma getParamDescription_tag_line:
  assumes pre: "clearBefore name pre"
    and ident: "identifierName name"
    and desc: "CHR 0x0A \<notin> set desc" "CHR ''-'' \<notin> set desc" "\<exists>c\<in>set desc. \<not> isWhiteSpace c"
    and rest: "rest = [] \<or> hd rest = CHR 0x0A"
  shows "getParamDescription (Some (pre @ ''@param '' @ name @ '' - '' @ desc @ rest)) name
           = Some (trim desc)"
proof -
  from identifierName_chars [OF ident]
  have name: "CHR 0x0A \<notin> set name" "CHR ''-'' \<notin> set name" by simp_all
  let ?line = "''@param'' @ afterTag name desc rest"
  have ne: "?line \<noteq> []" by simp
  from search_skips_clear [OF pre name(1) ne] obtain p where
    p: "searchFrom True [paramItems name] None (pre @ ?line)
          = searchFrom True [paramItems name] p ?line"
    by blast
  obtain m where m: "matchItems True (paramItems name) p ?line = Some m"
    using paramItems_succeeds [OF desc(1) desc(3) rest name(1), of True p] by auto
  have cap: "snd m = dropWhile isWhiteSpace desc"
    using paramItems_capture [OF desc(1) desc(3) rest name(1) name(2) desc(2) m] .
  have "matchRegex True [paramItems name] p ?line = Some m"
    using m by (simp del: matchItems.simps)
  then have "searchFrom True [paramItems name] p ?line = Some (snd m)"
    by (simp del: matchRegex.simps)
  with p cap have found:
    "matchGroup1 True [paramItems name] (pre @ ?line) = Some (dropWhile isWhiteSpace desc)"
    by (simp add: matchGroup1_def)
  have "trim (dropWhile isWhiteSpace desc) = trim desc"
    by (simp add: trim_def)
  with found show ?thesis
    unfolding tagLine_afterTag getParamDescription_def paramPattern_paramItems [OF ident]
    by (simp add: truthy_def textOf_def)
qed

text \<open>
  The name is looked for anywhere on the tag line, also inside another word: in the
  comment that documents \<open>from\<close> and \<open>to\<close>, the name \<open>o\<close> gets the description of
  \<open>from\<close>.
\<close>

lemma getParamDescription_name_inside_word:
  "getParamDescription (Some twoParams) ''o'' = Some ''Start''"
  by code_simp

text \<open>
  A \<open>$\<close> of the name is read as the end of the text, and the hyphen has to follow it:
  for a name with a \<open>$\<close> nothing is recovered, whatever the comment documents.
\<close>

lemma mandatory_on_empty:
  "Item g q a \<in> set items \<Longrightarrow> mandatory q \<Longrightarrow> matchItems ic items prev [] = None"
proof (induction items)
  case Nil
  then show ?case by simp
next
  case (Cons x r)
  show ?case
  proof (cases "x = Item g q a")
    case True
    with Cons.prems show ?thesis by simp
  next
    case False
    with Cons have "matchItems ic r prev [] = None" by simp
    then show ?thesis by (cases x) simp_all
  qed
qed

lemma nothing_after_InputEnd:
  assumes i: "Item g q a \<in> set ys" and q: "mandatory q"
  shows "items = xs @ InputEnd # ys \<Longrightarrow> matchItems ic items prev s = None"
proof (induction ic items prev s arbitrary: xs rule: matchItems.induct)
  case (1 ic prev s)
  then show ?case by simp
next
  case (2 ic r prev s)
  then obtain xs' where "r = xs' @ InputEnd # ys" by (cases xs) auto
  with "2.IH" show ?case by simp
next
  case (3 ic g' q' a' r prev)
  then obtain xs' where "r = xs' @ InputEnd # ys" by (cases xs) auto
  with "3.IH" show ?case by simp
next
  case (4 ic g' q' a' r prev c cs)
  then obtain xs' where r: "r = xs' @ InputEnd # ys" by (cases xs) auto
  then have r': "Item g' ZeroOrMore a' # r = (Item g' ZeroOrMore a' # xs') @ InputEnd # ys"
    by simp
  show ?case
  proof (cases "atomMatches ic a' c")
    case True
    then show ?thesis
      using "4.IH"(1) [OF True _ r] "4.IH"(2) [OF True _ r] "4.IH"(3) [OF True _ _ r]
        "4.IH"(4) [OF True _ r'] "4.IH"(5) [OF True _ _ r] "4.IH"(6) [OF True _ r']
      by (cases q') simp_all
  next
    case f: False
    then show ?thesis
      using "4.IH"(7) [OF f _ r] by (cases "mandatory q'") simp_all
  qed
next
  case (5 ic r prev s)
  show ?case
  proof (cases xs)
    case Nil
    with "5.prems" have "r = ys" by simp
    with mandatory_on_empty [OF i q] show ?thesis by simp
  next
    case (Cons x xs')
    with "5.prems" have "r = xs' @ InputEnd # ys" by simp
    with "5.IH" show ?thesis by simp
  qed
qed

lemma spliceName_dollar:
  "CHR ''$'' \<in> set name \<Longrightarrow> spliceName name = Some items \<Longrightarrow> InputEnd \<in> set items"
proof (induction name arbitrary: items)
  case Nil
  then show ?case by simp
next
  case (Cons c cs)
  then show ?case by (cases "c = CHR ''$''") (auto split: if_splits)
qed

lemma getParamDescription_dollar:
  assumes d: "CHR ''$'' \<in> set paramName" and c: "comment \<noteq> []"
  shows "getParamDescription (Some comment) paramName =
     map_option (\<lambda>pattern. ''The value to convert to a Date'') (paramPattern paramName)"
proof (cases "spliceName paramName")
  case None
  then show ?thesis
    using c by (simp add: getParamDescription_def paramPattern_def truthy_def)
next
  case (Some name)
  let ?N = "Item False ZeroOrMore (NoneOf NL)"
  let ?tail = "[?N, Item False Once (Lit CHR ''-''),
      Item False ZeroOrMore WhiteSpace, Item True OneOrMore (NoneOf NL)]"
  define items where "items = lits ''@param'' @ [?N] @ name @ ?tail"
  have p: "paramPattern paramName = Some [items]"
    using Some by (simp add: paramPattern_def items_def)
  from spliceName_dollar [OF d Some] obtain xs ys where name: "name = xs @ InputEnd # ys"
    by (meson split_list)
  have items: "items = (lits ''@param'' @ [?N] @ xs) @ InputEnd # (ys @ ?tail)"
    unfolding items_def name by simp
  have i: "Item False Once (Lit CHR ''-'') \<in> set (ys @ ?tail)" by simp
  have m: "mandatory Once" by (simp add: mandatory_def)
  have none: "matchItems True items prev s = None" for prev s
    by (rule nothing_after_InputEnd [OF i m items])
  have "searchFrom True [items] prev s = None" for prev s
    by (induction s arbitrary: prev) (simp_all add: none del: matchItems.simps)
  then have "matchGroup1 True [items] comment = None"
    by (simp add: matchGroup1_def)
  moreover have "paramName \<noteq> ''defaultValue''" using d by auto
  ultimately show ?thesis
    unfolding getParamDescription_def p
    using c by (simp add: truthy_def textOf_def)
qed

lemma getParamDescription_dollar_name:
  "getParamDescription (Some (''/**'' @ NL @ '' * @param $el - The element'' @ NL @ '' */''))
     ''$el'' = Some ''The value to convert to a Date''"
proof -
  have "spliceName ''$el'' \<noteq> None" by (simp add: isIdentifierChar_def)
  then show ?thesis
    using getParamDescription_dollar [of "''$el''"
        "''/**'' @ NL @ '' * @param $el - The element'' @ NL @ '' */''"]
    by (auto simp: paramPattern_def)
qed

text \<open>
  Claim C5, as the code has it by design, for a parameter name of letters, digits and
  \<open>_\<close>. The text of the parameter is recovered from a line
  \<open>@param name - description\<close> of the documentation comment: when the description has
  no hyphen and is not blank, and every earlier \<open>@\<close> of the comment stands on an earlier
  line where the name does not follow it (in any letter case), the result is the
  description, trimmed. A comment without any hyphen gives the table's text for such a
  name. A missing comment gives the table's text for every name (\<open>value\<close> gives
  \<open>The value to convert to a Date\<close>) and for the return value.
\<close>

theorem descriptions_recovered_by_design:
  "(identifierName name \<and> clearBefore name pre
      \<and> CHR 0x0A \<notin> set desc \<and> CHR ''-'' \<notin> set desc \<and> (\<exists>c\<in>set desc. \<not> isWhiteSpace c)
      \<and> (rest = [] \<or> hd rest = CHR 0x0A) \<longrightarrow>
    getParamDescription (Some (pre @ ''@param '' @ name @ '' - '' @ desc @ rest)) name
      = Some (trim desc))
 \<and> (identifierName paramName \<and> comment \<noteq> [] \<and> CHR ''-'' \<notin> set comment \<longrightarrow>
    getParamDescription (Some comment) paramName =
      Some (if paramName = ''defaultValue''
            then ''The default value to return if the value is invalid''
            else ''The value to convert to a Date''))
 \<and> getParamDescription None paramName =
      Some (if paramName = ''value'' then ''The value to convert to a Date''
            else if paramName = ''defaultValue''
            then ''The default value to return if the value is invalid''
            else ''The '' @ paramName @ '' parameter'')
 \<and> getParamDescription None ''value'' = Some ''The value to convert to a Date''
 \<and> getReturnDescription None functionName =
      (if functionName = Some ''toDate''
       then ''The converted Date or null if the value is invalid''
       else if functionName = Some ''toDateStrict'' then ''The converted Date''
       else if functionName = Some ''isDate'' then ''True if the value is a valid Date object''
       else ''The return value'')"
proof -
  have tagLine:
    "identifierName name \<and> clearBefore name pre
      \<and> CHR 0x0A \<notin> set desc \<and> CHR ''-'' \<notin> set desc \<and> (\<exists>c\<in>set desc. \<not> isWhiteSpace c)
      \<and> (rest = [] \<or> hd rest = CHR 0x0A) \<longrightarrow>
     getParamDescription (Some (pre @ ''@param '' @ name @ '' - '' @ desc @ rest)) name
       = Some (trim desc)"
    using getParamDescription_tag_line [of name pre desc rest] by blast
  have noHyphen:
    "identifierName paramName \<and> comment \<noteq> [] \<and> CHR ''-'' \<notin> set comment \<longrightarrow>
     getParamDescription (Some comment) paramName =
       Some (if paramName = ''defaultValue''
             then ''The default value to return if the value is invalid''
             else ''The value to convert to a Date'')"
    using getParamDescription_without_hyphen [of comment paramName]
      paramPattern_paramItems [of paramName]
    by auto
  have noComment:
    "getParamDescription None paramName =
       Some (if paramName = ''value'' then ''The value to convert to a Date''
             else if paramName = ''defaultValue''
             then ''The default value to return if the value is invalid''
             else ''The '' @ paramName @ '' parameter'')"
    by (simp add: getParamDescription_def truthy_def)
  have noCommentValue:
    "getParamDescription None ''value'' = Some ''The value to convert to a Date''"
    by (simp add: getParamDescription_def truthy_def)
  have noCommentReturn:
    "getReturnDescription None functionName =
      (if functionName = Some ''toDate''
       then ''The converted Date or null if the value is invalid''
       else if functionName = Some ''toDateStrict'' then ''The converted Date''
       else if functionName = Some ''isDate'' then ''True if the value is a valid Date object''
       else ''The return value'')"
    by (simp add: getReturnDescription_def truthy_def)
  show ?thesis
    by (intro conjI tagLine noHyphen noComment noCommentValue noCommentReturn)
qed

theorem descriptions_recovered_by_design_witness:
  "getParamDescription (Some documentedParam) ''input'' = Some ''The text to read''
 \<and> getParamDescription (Some twoParams) ''to'' = Some ''End''
 \<and> getParamDescription (Some ''/** Parses the text. */'') ''input''
     = Some ''The value to convert to a Date''"
proof -
  have a: "documentedParam
      = (''/**'' @ NL @ '' * '') @ ''@param '' @ ''input'' @ '' - '' @ ''The text to read''
          @ (NL @ '' */'')"
    by (simp add: documentedParam_def)
  have b: "twoParams
      = (''/**'' @ NL @ '' * @param from - Start'' @ NL @ '' * '') @ ''@param ''
          @ ''to'' @ '' - '' @ ''End'' @ (NL @ '' */'')"
    by (simp add: twoParams_def)
  have c1: "clearBefore ''input'' (''/**'' @ NL @ '' * '')"
    by (simp add: NL_def)
  have c2: "clearBefore ''to'' (''/**'' @ NL @ '' * @param from - Start'' @ NL @ '' * '')"
    by code_simp
  have i1: "identifierName ''input''" and i2: "identifierName ''to''"
    by (simp_all add: identifierName_def isIdentifierChar_def)
  have t1: "trim ''The text to read'' = ''The text to read''"
    by (simp add: trim_def isWhiteSpace_def)
  have t2: "trim ''End'' = ''End''"
    by (simp add: trim_def isWhiteSpace_def)
  show ?thesis
    unfolding a b
    using
      descriptions_recovered_by_design [of "''input''" "''/**'' @ NL @ '' * ''"
        "''The text to read''" "NL @ '' */''" "''input''" "''/** Parses the text. */''" None]
      descriptions_recovered_by_design [of "''to''"
        "''/**'' @ NL @ '' * @param from - Start'' @ NL @ '' * ''"
        "''End''" "NL @ '' */''" "''input''" "''/** Parses the text. */''" None]
      c1 c2 i1 i2 t1 t2
    by (simp add: NL_def isWhiteSpace_def del: clearBefore.simps)
qed

text \<open>
  The claim as written promises the comment's description for every tag line with a
  description. The line \<open>@param input The text to read\<close>, with no hyphen before the
  description, gives the table's text.
\<close>

theorem getParamDescription_counterexample:
  "getParamDescription (Some undashedParam) ''input'' = Some ''The value to convert to a Date''"
  using getParamDescription_without_hyphen [of undashedParam "''input''"]
    paramPattern_paramItems [of "''input''"]
  by (simp add: undashedParam_def NL_def identifierName_def isIdentifierChar_def)

text \<open>
  The pattern of \<open>getReturnDescription\<close> asks for a backslash after the hyphen, so the
  line \<open>@returns - The parsed text\<close> gives the table's text as well.
\<close>

lemma getReturnDescription_ignores_comment:
  "getReturnDescription (Some documentedReturn) (Some ''parse'') = ''The converted Date''
 \<and> getReturnDescription (Some documentedReturn) (Some ''toDate'')
     = ''The converted Date or null if the value is invalid''"
  using getReturnDescription_without_backslash [of documentedReturn "Some ''parse''"]
    getReturnDescription_without_backslash [of documentedReturn "Some ''toDate''"]
  by (simp add: documentedReturn_def NL_def)

subsection \<open>Extraction\<close>

lemma exportedTypes_append [simp]:
  "exportedTypes (xs @ ys) = exportedTypes xs @ exportedTypes ys"
  by (induction xs rule: exportedTypes.induct) simp_all

lemma exportedFunctions_append [simp]:
  "exportedFunctions (xs @ ys) = exportedFunctions xs @ exportedFunctions ys"
  by (induction xs rule: exportedFunctions.induct) simp_all

lemma types_of_source:
  "map typeExportOf (filter alias_exported (getTypeAliases sf))
     = exportedTypes (sourceOrderExports sf)"
  by (induction sf rule: sourceOrderExports.induct) simp_all

lemma functions_of_source:
  "map functionExportOf (filter function_exported (getFunctions sf))
     = exportedFunctions (sourceOrderExports sf)"
  by (induction sf rule: sourceOrderExports.induct) simp_all

lemma subseq_exportedTypes: "subseq (map ExportedType (exportedTypes xs)) xs"
  by (induction xs rule: exportedTypes.induct) (auto intro: list_emb_Cons)

lemma subseq_exportedFunctions: "subseq (map ExportedFunction (exportedFunctions xs)) xs"
  by (induction xs rule: exportedFunctions.induct) (auto intro: list_emb_Cons)

lemma set_exports_by_kind:
  "set (map ExportedType (exportedTypes xs)) \<union> set (map ExportedFunction (exportedFunctions xs))
     = set xs"
  by (induction xs rule: exportedTypes.induct) auto

lemma getTypeAliases_filter_isExported:
  "filter alias_exported (getTypeAliases (filter isExported sf))
     = filter alias_exported (getTypeAliases sf)"
  by (induction sf rule: getTypeAliases.induct) simp_all

lemma getFunctions_filter_isExported:
  "filter function_exported (getFunctions (filter isExported sf))
     = filter function_exported (getFunctions sf)"
  by (induction sf rule: getFunctions.induct) simp_all

lemma buildTypes_names:
  "map tinfo_name (fst (buildTypes_records [sf]))
     = map type_name (exportedTypes (sourceOrderExports sf))
 \<and> map iface_name (snd (buildTypes_records [sf]))
     = map func_name (exportedFunctions (sourceOrderExports sf))"
  by (simp add: types_of_source [symmetric] functions_of_source [symmetric] typeInfoOf_def
      typeExportOf_def interfaceInfoOf_def functionExportOf_def Let_def comp_def)

text \<open>
  Claim C6, as the code has it. The extractor returns two lists: the records of the
  exported type aliases, in source order, and the records of the exported functions, in
  source order. Together they are exactly the records of the exported declarations;
  declarations that are not exported change nothing (there is no error path). The loop of
  \<open>buildTypes\<close> collects the same names in the same two orders.
\<close>

theorem extractExportsFromFile_by_kind:
  "fe_types (extractExportsFromFile sf) = exportedTypes (sourceOrderExports sf)
 \<and> fe_functions (extractExportsFromFile sf) = exportedFunctions (sourceOrderExports sf)
 \<and> set (returnedExports (extractExportsFromFile sf)) = set (sourceOrderExports sf)
 \<and> subseq (map ExportedType (fe_types (extractExportsFromFile sf))) (sourceOrderExports sf)
 \<and> subseq (map ExportedFunction (fe_functions (extractExportsFromFile sf)))
      (sourceOrderExports sf)
 \<and> extractExportsFromFile (filter isExported sf) = extractExportsFromFile sf
 \<and> map tinfo_name (fst (buildTypes_records [sf]))
      = map type_name (exportedTypes (sourceOrderExports sf))
 \<and> map iface_name (snd (buildTypes_records [sf]))
      = map func_name (exportedFunctions (sourceOrderExports sf))"
  using set_exports_by_kind [of "sourceOrderExports sf"] buildTypes_names [of sf]
  by (simp add: extractExportsFromFile_def returnedExports_def types_of_source
      functions_of_source subseq_exportedTypes subseq_exportedFunctions
      getTypeAliases_filter_isExported getFunctions_filter_isExported)

text \<open>
  The claim as written wants one list in source order whatever the kinds. For a file that
  declares the function \<open>f\<close> before the type \<open>T\<close>, the list of the specification is
  \<open>f, T\<close>; the returned records are \<open>T\<close> (types) and \<open>f\<close> (functions), and the result
  is the same as for the file that declares \<open>T\<close> before \<open>f\<close>.
\<close>

theorem extractExportsFromFile_counterexample:
  "sourceOrderExports [FunctionDeclaration sampleFunction, TypeAliasDeclaration sampleAlias]
     = [ExportedFunction (functionExportOf sampleFunction), ExportedType (typeExportOf sampleAlias)]
 \<and> returnedExports (extractExportsFromFile
        [FunctionDeclaration sampleFunction, TypeAliasDeclaration sampleAlias])
     = [ExportedType (typeExportOf sampleAlias), ExportedFunction (functionExportOf sampleFunction)]
 \<and> returnedExports (extractExportsFromFile
        [FunctionDeclaration sampleFunction, TypeAliasDeclaration sampleAlias])
     \<noteq> sourceOrderExports [FunctionDeclaration sampleFunction, TypeAliasDeclaration sampleAlias]
 \<and> extractExportsFromFile [FunctionDeclaration sampleFunction, TypeAliasDeclaration sampleAlias]
     = extractExportsFromFile [TypeAliasDeclaration sampleAlias, FunctionDeclaration sampleFunction]"
  by (simp add: extractExportsFromFile_def returnedExports_def sampleAlias_def sampleFunction_def)

subsection \<open>The declaration block\<close>

lemma joinWith_append:
  "xs \<noteq> [] \<Longrightarrow> ys \<noteq> [] \<Longrightarrow> joinWith sep (xs @ ys) = joinWith sep xs @ sep @ joinWith sep ys"
  by (induction sep xs rule: joinWith.induct) (auto simp: neq_Nil_conv)

lemma joinWith_contains:
  "\<exists>pre post. joinWith sep (xs @ l # ys) = pre @ l @ post"
proof -
  have one: "\<exists>post. joinWith sep (l # ys) = l @ post"
    by (cases ys) simp_all
  show ?thesis
  proof (cases "xs = []")
    case True
    with one show ?thesis by (metis append_Nil)
  next
    case False
    then have "joinWith sep (xs @ l # ys) = joinWith sep xs @ sep @ joinWith sep (l # ys)"
      by (simp add: joinWith_append)
    with one show ?thesis by (metis append.assoc)
  qed
qed

lemma joinWith_contains_two:
  "\<exists>pre mid post. joinWith sep (xs @ l # ys @ m # zs) = pre @ l @ mid @ m @ post"
proof -
  obtain pre' post' where a: "joinWith sep (ys @ m # zs) = pre' @ m @ post'"
    using joinWith_contains by blast
  have b: "joinWith sep (l # ys @ m # zs) = l @ (sep @ pre') @ m @ post'"
    using joinWith_append [of "[l]" "ys @ m # zs" sep] a by simp
  show ?thesis
  proof (cases "xs = []")
    case True
    with b show ?thesis by (metis append_Nil)
  next
    case False
    then have "joinWith sep (xs @ l # ys @ m # zs)
        = (joinWith sep xs @ sep) @ l @ (sep @ pre') @ m @ post'"
      using joinWith_append [of xs "l # ys @ m # zs" sep] b by simp
    then show ?thesis by blast
  qed
qed

lemma scenarioA_collect:
  "buildTypes_collect [scenarioA_source typeDocs functionDocs]
     = ([dateValueType (extractJSDocComment typeDocs)],
        [(0, isDateInterface (extractJSDocComment functionDocs))])"
  by (simp add: buildTypes_collect_def scenarioA_source_def dateValueType_def isDateInterface_def
      typeInfoOf_def interfaceInfoOf_def paramSignature_def textOrAny_def truthy_def textOf_def
      templ_def Let_def)

lemma scenarioA_lines:
  "\<exists>typeDoc functionDoc.
     generateTypeDeclarations [dateValueType c1] [(r, isDateInterface c2)]
       = joinWith NL
           ([''declare namespace Lib {'', ''  namespace Utils {'']
            @ typeDoc
            @ [''    type DateValue = Date | number | string | null | undefined'', [],
               ''    interface Utils {'']
            @ functionDoc
            @ [''      isDate(value: unknown): boolean'',
               ''    }'', ''  }'', ''}'', [], ''declare var Utils: Lib.Utils.Utils'', []])"
proof -
  obtain typeDoc where t:
    "declTypeLines (dateValueType c1)
       = typeDoc @ [''    type DateValue = Date | number | string | null | undefined'', []]"
    by (simp add: declTypeLines_def dateValueType_def)
  obtain functionDoc where f:
    "declInterfaceLines [(r, isDateInterface c2)] (r, isDateInterface c2)
       = functionDoc @ [''      isDate(value: unknown): boolean'']"
    by (simp add: declInterfaceLines_def isDateInterface_def)
  show ?thesis
    unfolding generateTypeDeclarations_def using t f by auto
qed

text \<open>
  Claim C7 (scenario A). Whatever the documentation comments, the declaration block
  rendered for the type \<open>DateValue\<close> and the function \<open>isDate\<close> is: the two opening
  lines, the comment of the type if any, the line of the type member, an empty line, the
  opening of the interface, the comment of the function if any, the line of the method
  signature, and the closing lines. So the text contains the type member and, after it,
  the interface member. A source file that declares the two gives that output.
\<close>

theorem scenarioA_declaration_block:
  "(\<exists>typeDoc functionDoc.
      generateTypeDeclarations [dateValueType c1] [(r, isDateInterface c2)]
        = joinWith NL
            ([''declare namespace Lib {'', ''  namespace Utils {'']
             @ typeDoc
             @ [''    type DateValue = Date | number | string | null | undefined'', [],
                ''    interface Utils {'']
             @ functionDoc
             @ [''      isDate(value: unknown): boolean'',
                ''    }'', ''  }'', ''}'', [], ''declare var Utils: Lib.Utils.Utils'', []]))
 \<and> (\<exists>pre mid post.
      generateTypeDeclarations [dateValueType c1] [(r, isDateInterface c2)]
        = pre @ ''type DateValue = Date | number | string | null | undefined''
          @ mid @ ''isDate(value: unknown): boolean'' @ post)
 \<and> buildTypes_output [scenarioA_source typeDocs functionDocs]
      = generateTypeDeclarations [dateValueType (extractJSDocComment typeDocs)]
          [(0, isDateInterface (extractJSDocComment functionDocs))]"
proof (intro conjI)
  show "\<exists>typeDoc functionDoc.
      generateTypeDeclarations [dateValueType c1] [(r, isDateInterface c2)]
        = joinWith NL
            ([''declare namespace Lib {'', ''  namespace Utils {'']
             @ typeDoc
             @ [''    type DateValue = Date | number | string | null | undefined'', [],
                ''    interface Utils {'']
             @ functionDoc
             @ [''      isDate(value: unknown): boolean'',
                ''    }'', ''  }'', ''}'', [], ''declare var Utils: Lib.Utils.Utils'', []])"
    by (rule scenarioA_lines)
next
  obtain typeDoc functionDoc where e:
    "generateTypeDeclarations [dateValueType c1] [(r, isDateInterface c2)]
        = joinWith NL
            ([''declare namespace Lib {'', ''  namespace Utils {'']
             @ typeDoc
             @ [''    type DateValue = Date | number | string | null | undefined'', [],
                ''    interface Utils {'']
             @ functionDoc
             @ [''      isDate(value: unknown): boolean'',
                ''    }'', ''  }'', ''}'', [], ''declare var Utils: Lib.Utils.Utils'', []])"
    using scenarioA_lines by blast
  let ?xs = "[''declare namespace Lib {'', ''  namespace Utils {''] @ typeDoc"
  let ?ys = "[[], ''    interface Utils {''] @ functionDoc"
  let ?zs = "[''    }'', ''  }'', ''}'', [], ''declare var Utils: Lib.Utils.Utils'', []]"
  obtain pre mid post where j:
    "joinWith NL (?xs @ ''    type DateValue = Date | number | string | null | undefined'' # ?ys
        @ ''      isDate(value: unknown): boolean'' # ?zs)
       = pre @ ''    type DateValue = Date | number | string | null | undefined'' @ mid
         @ ''      isDate(value: unknown): boolean'' @ post"
    using joinWith_contains_two by blast
  have "generateTypeDeclarations [dateValueType c1] [(r, isDateInterface c2)]
      = (pre @ ''    '') @ ''type DateValue = Date | number | string | null | undefined''
        @ (mid @ ''      '') @ ''isDate(value: unknown): boolean'' @ post"
    using e j by simp
  then show "\<exists>pre mid post.
      generateTypeDeclarations [dateValueType c1] [(r, isDateInterface c2)]
        = pre @ ''type DateValue = Date | number | string | null | undefined''
          @ mid @ ''isDate(value: unknown): boolean'' @ post"
    by blast
next
  show "buildTypes_output [scenarioA_source typeDocs functionDocs]
      = generateTypeDeclarations [dateValueType (extractJSDocComment typeDocs)]
          [(0, isDateInterface (extractJSDocComment functionDocs))]"
    by (simp add: buildTypes_output_def scenarioA_collect)
qed

subsection \<open>Object identity in the declaration block\<close>

text \<open>
  \<open>generateTypeDeclarations\<close> finds the position of an interface with
  \<open>interfaces.indexOf(func)\<close>, which compares objects by identity. The identities are new
  in every run of the script; the lemmas below show that the text does not depend on
  them, as long as the array holds no object twice, which is so for every array that the
  script collects.
\<close>

lemma indexOf_distinct:
  "distinct (map fst xs) \<Longrightarrow> i < length xs \<Longrightarrow> indexOf xs (fst (xs ! i)) = int i"
proof (induction xs arbitrary: i)
  case Nil
  then show ?case by simp
next
  case (Cons x xs)
  show ?case
  proof (cases i)
    case 0
    then show ?thesis by simp
  next
    case (Suc j)
    with Cons.prems have j: "j < length xs" and d: "distinct (map fst xs)"
      and nx: "fst x \<notin> fst ` set xs"
      by auto
    from j have "fst (xs ! j) \<in> fst ` set xs" by simp
    with nx have "fst x \<noteq> fst (xs ! j)" by metis
    moreover have "indexOf xs (fst (xs ! j)) = int j" using Cons.IH [OF d j] .
    ultimately show ?thesis using Suc by (simp add: Let_def)
  qed
qed

text \<open>
  In an array of distinct objects the lines of an interface depend on its record, its
  position and the length of the array only.
\<close>

lemma declInterfaceLines_distinct:
  assumes "distinct (map fst xs)" and "i < length xs"
  shows "declInterfaceLines xs (xs ! i)
           = declInterfaceLines (zip [0 ..< length xs] (map snd xs)) (i, snd (xs ! i))"
proof -
  let ?ys = "zip [0 ..< length xs] (map snd xs)"
  have d: "distinct (map fst ?ys)" by simp
  have l: "length ?ys = length xs" by simp
  have "?ys ! i = (i, snd (xs ! i))" using assms(2) by simp
  then have "indexOf ?ys i = int i"
    using indexOf_distinct [of ?ys i] d l assms(2) by simp
  moreover have "indexOf xs (fst (xs ! i)) = int i"
    using indexOf_distinct [OF assms] .
  ultimately show ?thesis
    by (simp add: declInterfaceLines_def)
qed

lemma interface_lines_by_position:
  assumes "distinct (map fst xs)"
  shows "map (declInterfaceLines xs) xs
           = map (\<lambda>i. declInterfaceLines (zip [0 ..< length xs] (map snd xs))
                        (i, map snd xs ! i)) [0 ..< length xs]"
proof -
  have "map (declInterfaceLines xs) xs
          = map (\<lambda>i. declInterfaceLines xs (xs ! i)) [0 ..< length xs]"
    by (rule nth_equalityI) simp_all
  also have "\<dots> = map (\<lambda>i. declInterfaceLines (zip [0 ..< length xs] (map snd xs))
                        (i, map snd xs ! i)) [0 ..< length xs]"
    using declInterfaceLines_distinct [OF assms] by simp
  finally show ?thesis .
qed

text \<open>
  Two arrays of distinct objects that hold the same records give the same text.
\<close>

lemma generateTypeDeclarations_content:
  assumes "map snd xs = map snd ys" and "distinct (map fst xs)" and "distinct (map fst ys)"
  shows "generateTypeDeclarations ts xs = generateTypeDeclarations ts ys"
proof -
  have "length xs = length ys" using assms(1) by (metis length_map)
  then have "map (declInterfaceLines xs) xs = map (declInterfaceLines ys) ys"
    using interface_lines_by_position [OF assms(2)] interface_lines_by_position [OF assms(3)]
      assms(1) by simp
  then show ?thesis by (simp add: generateTypeDeclarations_def)
qed

lemma buildTypes_collect_distinct:
  "distinct (map fst (snd (buildTypes_collect sourceFiles)))"
  by (simp add: buildTypes_collect_def split: prod.splits)

text \<open>
  The objects must be distinct for that: an array that holds one object twice gets an
  empty line after its last signature, an array of two equal but distinct objects does
  not.
\<close>

lemma aliasing_changes_output:
  "generateTypeDeclarations [] [(0, plainInterface ''f''), (0, plainInterface ''f'')]
     \<noteq> generateTypeDeclarations [] [(0, plainInterface ''f''), (1, plainInterface ''f'')]"
  by (simp add: generateTypeDeclarations_def declInterfaceLines_def plainInterface_def
      truthy_def NL_def)

end
